theory Spec2Isabelle
  imports Complex_Main
begin

section \<open>Values of the host language and of the backing store\<close>

text \<open>
  The two record stores of the repository, \<^verbatim>\<open>SensorDB\<close> (Mechatronics.py) and
  \<^verbatim>\<open>OrderDB\<close> (customerDatabase.py), are thin classes over one SQLite table each.
  Every method is one SQL statement run inside \<^verbatim>\<open>with self.conn:\<close>, which commits
  when the statement succeeds and rolls back when it raises. The model passes the table
  explicitly: a method takes the table and returns its outcome together with the table
  after the call, so that "unchanged on failure" is a statement about the second
  component.

  Text is modelled by \<open>string\<close>, each \<open>char\<close> read as one code point below 256.
  A Python \<^verbatim>\<open>float\<close> is a real number, one of the two infinities, or NaN; no arithmetic
  is done on floats by the stores, they are only compared with zero, stored and printed.
\<close>

datatype pyfloat = Finite real | PosInf | NegInf | NaN

text \<open>The exceptions a store method can raise.\<close>

datatype error =
    IntegrityError    \<comment> \<open>\<^verbatim>\<open>sqlite3.IntegrityError\<close>: a NOT NULL or CHECK constraint failed\<close>
  | OverflowError     \<comment> \<open>a Python int that does not fit SQLite's 64-bit INTEGER was bound\<close>
  | OperationalError  \<comment> \<open>\<^verbatim>\<open>sqlite3.OperationalError\<close>: no rowid is left (SQLITE_FULL)\<close>
  | ValueError        \<comment> \<open>raised by \<^verbatim>\<open>export_to_csv\<close> on an empty table\<close>
  | OSError           \<comment> \<open>\<^verbatim>\<open>open(csv_path, "w")\<close> failed\<close>

subsection \<open>\<^verbatim>\<open>str.strip()\<close>\<close>

text \<open>The code points below 256 for which \<^verbatim>\<open>str.isspace\<close> holds.\<close>

definition py_isspace :: "char \<Rightarrow> bool" where
  "py_isspace c \<longleftrightarrow>
     c \<in> set [CHR 0x09, CHR 0x0A, CHR 0x0B, CHR 0x0C, CHR 0x0D,
              CHR 0x1C, CHR 0x1D, CHR 0x1E, CHR 0x1F, CHR 0x20, CHR 0x85, CHR 0xA0]"

definition strip :: "string \<Rightarrow> string" where
  "strip s = rev (dropWhile py_isspace (rev (dropWhile py_isspace s)))"

subsection \<open>Binding parameters\<close>

text \<open>
  SQLite integers are signed 64-bit. The \<^verbatim>\<open>sqlite3\<close> module raises
  \<^verbatim>\<open>OverflowError\<close> when a Python int outside that range is bound to a \<^verbatim>\<open>?\<close>,
  before the statement runs. A NaN is bound as NULL, which every column of both tables
  rejects (\<^verbatim>\<open>NOT NULL\<close>).
\<close>

definition MAX_ROWID :: int where
  "MAX_ROWID = 2 ^ 63 - 1"

definition sqlite_int :: "int \<Rightarrow> bool" where
  "sqlite_int n \<longleftrightarrow> - (2 ^ 63) \<le> n \<and> n \<le> MAX_ROWID"

definition not_null :: "pyfloat \<Rightarrow> bool" where
  "not_null x \<longleftrightarrow> x \<noteq> NaN"

text \<open>The SQL comparison \<^verbatim>\<open>x >= 0\<close> on a REAL value that is not NULL.\<close>

fun float_ge0 :: "pyfloat \<Rightarrow> bool" where
  "float_ge0 (Finite r) = (0 \<le> r)"
| "float_ge0 PosInf = True"
| "float_ge0 NegInf = False"
| "float_ge0 NaN = False"

text \<open>The Python comparison \<^verbatim>\<open>x < 0\<close> on a float.\<close>

fun float_lt0 :: "pyfloat \<Rightarrow> bool" where
  "float_lt0 (Finite r) = (r < 0)"
| "float_lt0 PosInf = False"
| "float_lt0 NegInf = True"
| "float_lt0 NaN = False"

section \<open>One table with \<^verbatim>\<open>id INTEGER PRIMARY KEY AUTOINCREMENT\<close>\<close>

text \<open>
  A table is its rows, each with its \<^verbatim>\<open>id\<close>, and the entry SQLite keeps for it in
  \<^verbatim>\<open>sqlite_sequence\<close>: the largest rowid ever given out (0 while there is none).
\<close>

record 'r table =
  table_rows :: "(int \<times> 'r) list"
  sqlite_sequence :: int

definition empty_table :: "'r table" where
  "empty_table = \<lparr>table_rows = [], sqlite_sequence = 0\<rparr>"

text \<open>The largest rowid in use or remembered: what AUTOINCREMENT starts from.\<close>

definition max_rowid :: "'r table \<Rightarrow> int" where
  "max_rowid t = fold max (map fst (table_rows t)) (sqlite_sequence t)"

definition matching :: "int \<Rightarrow> 'r table \<Rightarrow> (int \<times> 'r) list" where
  "matching i t = filter (\<lambda>kr. fst kr = i) (table_rows t)"

text \<open>
  \<^verbatim>\<open>INSERT INTO t (...) VALUES (...)\<close>. The new rowid is one more than the largest ever
  used; when that one is the largest 64-bit integer the statement fails with SQLITE_FULL.
  The row constraints (\<^verbatim>\<open>NOT NULL\<close>, \<^verbatim>\<open>CHECK\<close>) are evaluated on the new row next,
  and a failure aborts the statement. The result is \<^verbatim>\<open>cursor.lastrowid\<close>.
\<close>

definition sql_insert :: "('r \<Rightarrow> bool) \<Rightarrow> 'r \<Rightarrow> 'r table \<Rightarrow> (error + int) \<times> 'r table" where
  "sql_insert constraints r t =
     (if MAX_ROWID \<le> max_rowid t then (Inl OperationalError, t)
      else if \<not> constraints r then (Inl IntegrityError, t)
      else let i = max_rowid t + 1
           in (Inr i, \<lparr>table_rows = table_rows t @ [(i, r)], sqlite_sequence = i\<rparr>))"

text \<open>
  \<^verbatim>\<open>UPDATE t SET ... WHERE id = ?\<close>. The constraints are evaluated for each row that
  is rewritten, so not at all when no row matches. The result is \<^verbatim>\<open>cursor.rowcount\<close>.
\<close>

definition sql_update :: "('r \<Rightarrow> bool) \<Rightarrow> int \<Rightarrow> 'r \<Rightarrow> 'r table \<Rightarrow> (error + nat) \<times> 'r table" where
  "sql_update constraints i r t =
     (if matching i t \<noteq> [] \<and> \<not> constraints r then (Inl IntegrityError, t)
      else (Inr (length (matching i t)),
            t\<lparr>table_rows := map (\<lambda>kr. if fst kr = i then (fst kr, r) else kr) (table_rows t)\<rparr>))"

text \<open>\<^verbatim>\<open>DELETE FROM t WHERE id = ?\<close>, with \<^verbatim>\<open>cursor.rowcount\<close>.\<close>

definition sql_delete :: "int \<Rightarrow> 'r table \<Rightarrow> nat \<times> 'r table" where
  "sql_delete i t =
     (length (matching i t), t\<lparr>table_rows := filter (\<lambda>kr. fst kr \<noteq> i) (table_rows t)\<rparr>)"

text \<open>\<^verbatim>\<open>SELECT * FROM t ORDER BY id\<close> with \<^verbatim>\<open>fetchall()\<close>.\<close>

definition sql_select_all :: "'r table \<Rightarrow> (int \<times> 'r) list" where
  "sql_select_all t = sort_key fst (table_rows t)"

text \<open>\<^verbatim>\<open>SELECT * FROM t WHERE id = ?\<close> with \<^verbatim>\<open>fetchone()\<close>.\<close>

definition sql_select_one :: "int \<Rightarrow> 'r table \<Rightarrow> (int \<times> 'r) option" where
  "sql_select_one i t = (case matching i t of [] \<Rightarrow> None | kr # _ \<Rightarrow> Some kr)"

section \<open>\<^verbatim>\<open>SensorDB\<close> (Mechatronics.py)\<close>

record sensor_row =
  sensor_name :: string
  "value" :: pyfloat
  unit :: string
  timestamp :: string
  status :: string

type_synonym sensor_db = "sensor_row table"

text \<open>The table declaration: every column is \<^verbatim>\<open>NOT NULL\<close>, there is no \<^verbatim>\<open>CHECK\<close>.\<close>

definition sensor_constraints :: "sensor_row \<Rightarrow> bool" where
  "sensor_constraints r \<longleftrightarrow> not_null (value r)"

text \<open>
  \<^verbatim>\<open>add_reading(self, sensor_name, value, unit, timestamp=None, status="Normal")\<close>.
  An argument left out is \<open>None\<close> here; a primed name is the method's parameter, a
  doubly primed one the parameter after its default has been filled in. \<open>now\<close> is what
  \<^verbatim>\<open>datetime.datetime.now().strftime("%Y-%m-%d %H:%M:%S")\<close> gives at the call.
\<close>

definition add_reading ::
  "string \<Rightarrow> pyfloat \<Rightarrow> string \<Rightarrow> string option \<Rightarrow> string option \<Rightarrow> string \<Rightarrow> sensor_db
     \<Rightarrow> (error + int) \<times> sensor_db" where
  "add_reading sensor_name' value' unit' timestamp' status' now db =
     (let timestamp'' = (case timestamp' of None \<Rightarrow> now | Some ts \<Rightarrow> ts);
          status'' = (case status' of None \<Rightarrow> ''Normal'' | Some s \<Rightarrow> s)
      in sql_insert sensor_constraints
           \<lparr>sensor_name = strip sensor_name', value = value', unit = strip unit',
            timestamp = timestamp'', sensor_row.status = strip status''\<rparr> db)"

definition get_all_readings :: "sensor_db \<Rightarrow> (int \<times> sensor_row) list" where
  "get_all_readings db = sql_select_all db"

definition get_reading :: "int \<Rightarrow> sensor_db \<Rightarrow> error + (int \<times> sensor_row) option" where
  "get_reading reading_id db =
     (if \<not> sqlite_int reading_id then Inl OverflowError
      else Inr (sql_select_one reading_id db))"

definition update_reading ::
  "int \<Rightarrow> string \<Rightarrow> pyfloat \<Rightarrow> string \<Rightarrow> string \<Rightarrow> string \<Rightarrow> sensor_db
     \<Rightarrow> (error + bool) \<times> sensor_db" where
  "update_reading reading_id sensor_name' value' unit' timestamp' status' db =
     (if \<not> sqlite_int reading_id then (Inl OverflowError, db)
      else case sql_update sensor_constraints reading_id
                  \<lparr>sensor_name = strip sensor_name', value = value', unit = strip unit',
                   timestamp = strip timestamp', sensor_row.status = strip status'\<rparr> db of
             (Inl e, db') \<Rightarrow> (Inl e, db')
           | (Inr rowcount, db') \<Rightarrow> (Inr (rowcount > 0), db'))"

definition delete_reading :: "int \<Rightarrow> sensor_db \<Rightarrow> (error + bool) \<times> sensor_db" where
  "delete_reading reading_id db =
     (if \<not> sqlite_int reading_id then (Inl OverflowError, db)
      else case sql_delete reading_id db of
             (rowcount, db') \<Rightarrow> (Inr (rowcount > 0), db'))"

section \<open>\<^verbatim>\<open>OrderDB\<close> (customerDatabase.py)\<close>

record order_row =
  customer_name :: string
  product :: string
  quantity :: int
  unit_price :: pyfloat
  order_date :: string
  status :: string

type_synonym order_db = "order_row table"

text \<open>
  The table declaration: every column is \<^verbatim>\<open>NOT NULL\<close>, with
  \<^verbatim>\<open>CHECK(quantity > 0)\<close> and \<^verbatim>\<open>CHECK(unit_price >= 0)\<close>.
\<close>

definition order_constraints :: "order_row \<Rightarrow> bool" where
  "order_constraints r \<longleftrightarrow>
     not_null (unit_price r) \<and> quantity r > 0 \<and> float_ge0 (unit_price r)"

text \<open>
  \<^verbatim>\<open>add_order(self, customer_name, product, quantity, unit_price, order_date=None,
  status="pending")\<close>; \<open>today\<close> is \<^verbatim>\<open>datetime.date.today().isoformat()\<close> at the call.
\<close>

definition add_order ::
  "string \<Rightarrow> string \<Rightarrow> int \<Rightarrow> pyfloat \<Rightarrow> string option \<Rightarrow> string option \<Rightarrow> string \<Rightarrow> order_db
     \<Rightarrow> (error + int) \<times> order_db" where
  "add_order customer_name' product' quantity' unit_price' order_date' status' today db =
     (let order_date'' = (case order_date' of None \<Rightarrow> today | Some d \<Rightarrow> d);
          status'' = (case status' of None \<Rightarrow> ''pending'' | Some s \<Rightarrow> s)
      in if \<not> sqlite_int quantity' then (Inl OverflowError, db)
         else sql_insert order_constraints
                \<lparr>customer_name = strip customer_name', product = strip product',
                 quantity = quantity', unit_price = unit_price', order_date = order_date'',
                 order_row.status = strip status''\<rparr> db)"

definition get_all_orders :: "order_db \<Rightarrow> (int \<times> order_row) list" where
  "get_all_orders db = sql_select_all db"

definition get_order :: "int \<Rightarrow> order_db \<Rightarrow> error + (int \<times> order_row) option" where
  "get_order order_id db =
     (if \<not> sqlite_int order_id then Inl OverflowError
      else Inr (sql_select_one order_id db))"

definition update_order ::
  "int \<Rightarrow> string \<Rightarrow> string \<Rightarrow> int \<Rightarrow> pyfloat \<Rightarrow> string \<Rightarrow> string \<Rightarrow> order_db
     \<Rightarrow> (error + bool) \<times> order_db" where
  "update_order order_id customer_name' product' quantity' unit_price' order_date' status' db =
     (if \<not> sqlite_int quantity' \<or> \<not> sqlite_int order_id then (Inl OverflowError, db)
      else case sql_update order_constraints order_id
                  \<lparr>customer_name = strip customer_name', product = strip product',
                   quantity = quantity', unit_price = unit_price',
                   order_date = strip order_date', order_row.status = strip status'\<rparr> db of
             (Inl e, db') \<Rightarrow> (Inl e, db')
           | (Inr rowcount, db') \<Rightarrow> (Inr (rowcount > 0), db'))"

definition delete_order :: "int \<Rightarrow> order_db \<Rightarrow> (error + bool) \<times> order_db" where
  "delete_order order_id db =
     (if \<not> sqlite_int order_id then (Inl OverflowError, db)
      else case sql_delete order_id db of
             (rowcount, db') \<Rightarrow> (Inr (rowcount > 0), db'))"

section \<open>Export to CSV\<close>

subsection \<open>\<^verbatim>\<open>csv.writer\<close> with the default dialect\<close>

text \<open>
  \<^verbatim>\<open>csv.writer(f)\<close> uses the \<^verbatim>\<open>excel\<close> dialect: delimiter \<^verbatim>\<open>,\<close>, quote character
  \<^verbatim>\<open>"\<close> doubled inside a quoted field, \<^verbatim>\<open>QUOTE_MINIMAL\<close>, line terminator
  \<^verbatim>\<open>\r\n\<close>. A field is quoted when it holds the delimiter, the quote character or a
  character of the line terminator; a record that would be empty text (one empty field)
  is written as a quoted empty field. Numbers are written as \<^verbatim>\<open>str\<close> prints them.
\<close>

definition csv_special :: "char \<Rightarrow> bool" where
  "csv_special c \<longleftrightarrow> c = CHR '','' \<or> c = CHR 0x22 \<or> c = CHR 0x0D \<or> c = CHR 0x0A"

definition csv_quote :: "string \<Rightarrow> string" where
  "csv_quote s =
     CHR 0x22 # concat (map (\<lambda>c. if c = CHR 0x22 then [CHR 0x22, CHR 0x22] else [c]) s) @ [CHR 0x22]"

definition csv_field :: "string \<Rightarrow> string" where
  "csv_field s = (if list_ex csv_special s then csv_quote s else s)"

fun join_fields :: "string list \<Rightarrow> string" where
  "join_fields [] = []"
| "join_fields [f] = f"
| "join_fields (f # g # fs) = f @ CHR '','' # join_fields (g # fs)"

definition writerow :: "string list \<Rightarrow> string" where
  "writerow cells =
     (if cells = [[]] then csv_quote [] else join_fields (map csv_field cells))
     @ [CHR 0x0D, CHR 0x0A]"

text \<open>\<^verbatim>\<open>str\<close> of a Python int.\<close>

definition digit_char :: "nat \<Rightarrow> char" where
  "digit_char d = ''0123456789'' ! d"

fun digits_of :: "nat \<Rightarrow> string" where
  "digits_of n = (if n < 10 then [digit_char n] else digits_of (n div 10) @ [digit_char (n mod 10)])"

declare digits_of.simps [simp del]

definition str_int :: "int \<Rightarrow> string" where
  "str_int i = (if i < 0 then CHR ''-'' # digits_of (nat (- i)) else digits_of (nat i))"

subsection \<open>The destination file\<close>

text \<open>
  The files the export can see: the text of each file that exists, and whether
  \<^verbatim>\<open>open(path, "w")\<close> succeeds on a path. Once the file is open the writes are taken
  to succeed.
\<close>

record filesystem =
  contents :: "string \<Rightarrow> string option"
  writable :: "string \<Rightarrow> bool"

definition write_file :: "string \<Rightarrow> string \<Rightarrow> filesystem \<Rightarrow> filesystem" where
  "write_file path text fs = fs\<lparr>contents := (contents fs)(path \<mapsto> text)\<rparr>"

subsection \<open>\<^verbatim>\<open>SensorDB.export_to_csv\<close>\<close>

definition sensor_header :: "string list" where
  "sensor_header = [''id'', ''sensor_name'', ''value'', ''unit'', ''timestamp'', ''status'']"

text \<open>
  The cells of one data row. \<open>str_float\<close> is \<^verbatim>\<open>str\<close> on a Python float, a parameter
  of the model.
\<close>

definition sensor_cells :: "(pyfloat \<Rightarrow> string) \<Rightarrow> int \<times> sensor_row \<Rightarrow> string list" where
  "sensor_cells str_float kr =
     [str_int (fst kr), sensor_name (snd kr), str_float (value (snd kr)), unit (snd kr),
      timestamp (snd kr), sensor_row.status (snd kr)]"

definition sensor_export_to_csv ::
  "(pyfloat \<Rightarrow> string) \<Rightarrow> string \<Rightarrow> sensor_db \<Rightarrow> filesystem \<Rightarrow> (error + unit) \<times> filesystem" where
  "sensor_export_to_csv str_float csv_path db fs =
     (let rows = get_all_readings db
      in if rows = [] then (Inl ValueError, fs)
         else if \<not> writable fs csv_path then (Inl OSError, fs)
         else (Inr (),
               write_file csv_path
                 (writerow sensor_header @ concat (map (\<lambda>r. writerow (sensor_cells str_float r)) rows))
                 fs))"

subsection \<open>\<^verbatim>\<open>OrderDB.export_to_csv\<close>\<close>

definition order_header :: "string list" where
  "order_header =
     [''id'', ''customer_name'', ''product'', ''quantity'', ''unit_price'', ''order_date'', ''status'']"

definition order_cells :: "(pyfloat \<Rightarrow> string) \<Rightarrow> int \<times> order_row \<Rightarrow> string list" where
  "order_cells str_float kr =
     [str_int (fst kr), customer_name (snd kr), product (snd kr), str_int (quantity (snd kr)),
      str_float (unit_price (snd kr)), order_date (snd kr), order_row.status (snd kr)]"

definition order_export_to_csv ::
  "(pyfloat \<Rightarrow> string) \<Rightarrow> string \<Rightarrow> order_db \<Rightarrow> filesystem \<Rightarrow> (error + unit) \<times> filesystem" where
  "order_export_to_csv str_float csv_path db fs =
     (let rows = get_all_orders db
      in if rows = [] then (Inl ValueError, fs)
         else if \<not> writable fs csv_path then (Inl OSError, fs)
         else (Inr (),
               write_file csv_path
                 (writerow order_header @ concat (map (\<lambda>r. writerow (order_cells str_float r)) rows))
                 fs))"

section \<open>Well-formed tables and two example tables\<close>

text \<open>
  What SQLite maintains for a table with an AUTOINCREMENT key that is only changed through
  the three statements above: ids are positive, distinct and not above the remembered
  sequence value, which fits in 64 bits.
\<close>

definition table_inv :: "'r table \<Rightarrow> bool" where
  "table_inv t \<longleftrightarrow>
     0 \<le> sqlite_sequence t \<and> sqlite_sequence t \<le> MAX_ROWID \<and>
     list_all (\<lambda>kr. 0 < fst kr \<and> fst kr \<le> sqlite_sequence t) (table_rows t) \<and>
     distinct (map fst (table_rows t))"

text \<open>A sensor table after three adds and the deletion of reading 2.\<close>

definition sdb_example :: sensor_db where
  "sdb_example =
     \<lparr>table_rows = [(1, \<lparr>sensor_name = ''Pump-A'', value = Finite 21.5, unit = ''C'',
                         timestamp = ''2024-01-01 00:00:00'', sensor_row.status = ''Normal''\<rparr>),
                    (3, \<lparr>sensor_name = ''Valve-7'', value = Finite 2, unit = ''kPa'',
                         timestamp = ''2024-01-02 08:30:00'', sensor_row.status = ''Warning''\<rparr>)],
      sqlite_sequence = 3\<rparr>"

text \<open>An order table after two adds.\<close>

definition odb_example :: order_db where
  "odb_example =
     \<lparr>table_rows = [(1, \<lparr>customer_name = ''Ada'', product = ''Bolt, M4'', quantity = 3,
                         unit_price = Finite 10.5, order_date = ''2024-01-01'',
                         order_row.status = ''pending''\<rparr>),
                    (2, \<lparr>customer_name = ''Bob'', product = ''Nut'', quantity = 1,
                         unit_price = Finite 0, order_date = ''2024-01-03'',
                         order_row.status = ''shipped''\<rparr>)],
      sqlite_sequence = 2\<rparr>"

section \<open>Sequences of calls\<close>

text \<open>
  A caller's use of one store over time: any sequence of adds, updates and deletes with
  any arguments. A call that raises leaves the table as it was and the sequence goes on
  (in the next run of the program at the latest, the table being a file). The run collects
  the ids that the successful adds returned, in order.
\<close>

datatype sensor_call =
    Add_reading string pyfloat string "string option" "string option" string
  | Update_reading int string pyfloat string string string
  | Delete_reading int

datatype order_call =
    Add_order string string int pyfloat "string option" "string option" string
  | Update_order int string string int pyfloat string string
  | Delete_order int

fun sensor_do :: "sensor_call \<Rightarrow> sensor_db \<Rightarrow> int option \<times> sensor_db" where
  "sensor_do (Add_reading n v u ts st now) db =
     (case add_reading n v u ts st now db of
        (Inr i, db') \<Rightarrow> (Some i, db')
      | (Inl e, db') \<Rightarrow> (None, db'))"
| "sensor_do (Update_reading i n v u ts st) db = (None, snd (update_reading i n v u ts st db))"
| "sensor_do (Delete_reading i) db = (None, snd (delete_reading i db))"

fun sensor_run :: "sensor_call list \<Rightarrow> sensor_db \<Rightarrow> int list \<times> sensor_db" where
  "sensor_run [] db = ([], db)"
| "sensor_run (c # cs) db =
     (case sensor_do c db of
        (None, db') \<Rightarrow> sensor_run cs db'
      | (Some i, db') \<Rightarrow> (case sensor_run cs db' of (ids, db'') \<Rightarrow> (i # ids, db'')))"

fun order_do :: "order_call \<Rightarrow> order_db \<Rightarrow> int option \<times> order_db" where
  "order_do (Add_order c p q up od st today) db =
     (case add_order c p q up od st today db of
        (Inr i, db') \<Rightarrow> (Some i, db')
      | (Inl e, db') \<Rightarrow> (None, db'))"
| "order_do (Update_order i c p q up od st) db = (None, snd (update_order i c p q up od st db))"
| "order_do (Delete_order i) db = (None, snd (delete_order i db))"

fun order_run :: "order_call list \<Rightarrow> order_db \<Rightarrow> int list \<times> order_db" where
  "order_run [] db = ([], db)"
| "order_run (c # cs) db =
     (case order_do c db of
        (None, db') \<Rightarrow> order_run cs db'
      | (Some i, db') \<Rightarrow> (case order_run cs db' of (ids, db'') \<Rightarrow> (i # ids, db'')))"

section \<open>Reading the exported file back\<close>

subsection \<open>The columns of the two tables\<close>

text \<open>The column names of the two \<^verbatim>\<open>CREATE TABLE\<close> statements, in declaration order.\<close>

definition sensor_columns :: "string list" where
  "sensor_columns = [''id'', ''sensor_name'', ''value'', ''unit'', ''timestamp'', ''status'']"

definition order_columns :: "string list" where
  "order_columns =
     [''id'', ''customer_name'', ''product'', ''quantity'', ''unit_price'', ''order_date'', ''status'']"

subsection \<open>The grammar of the dialect\<close>

text \<open>
  What "parsing the produced file" means here: the grammar of the dialect that the writer
  uses, read over the whole text of the file, one character at a time, with the field
  being collected, the fields of the record so far and the records so far. A comma
  outside quotes ends the field; a line end outside quotes ends the record (\<^verbatim>\<open>\r\n\<close>
  counts once); an empty line is an empty record; a field that opens with a quote runs to
  the closing quote, and a doubled quote inside it is one quote; the end of the text ends
  a record that was begun.

  This is the file format, not a library's reader of it, and what a reader adds of its own
  is left out. Python's \<^verbatim>\<open>csv.reader\<close>, for one, raises on a field longer than its
  \<^verbatim>\<open>field_size_limit\<close> (131072 characters unless the caller sets another): a bound of
  that reader, no part of the format. Cells of any length are read here.
\<close>

datatype parse_state =
  Record_start | Field_start | In_field | In_quoted | Quote_in_quoted | After_cr

datatype parser = Parser parse_state string "string list" "string list list"

definition end_record :: "parse_state \<Rightarrow> string list \<Rightarrow> string list list \<Rightarrow> parser" where
  "end_record st cells recs = Parser st [] [] (recs @ [cells])"

definition start_field :: "string list \<Rightarrow> string list list \<Rightarrow> char \<Rightarrow> parser" where
  "start_field cells recs c =
     (if c = CHR 0x0A then end_record Record_start (cells @ [[]]) recs
      else if c = CHR 0x0D then end_record After_cr (cells @ [[]]) recs
      else if c = CHR 0x22 then Parser In_quoted [] cells recs
      else if c = CHR '','' then Parser Field_start [] (cells @ [[]]) recs
      else Parser In_field [c] cells recs)"

definition start_record :: "string list list \<Rightarrow> char \<Rightarrow> parser" where
  "start_record recs c =
     (if c = CHR 0x0A then end_record Record_start [] recs
      else if c = CHR 0x0D then end_record After_cr [] recs
      else start_field [] recs c)"

fun parse_char :: "parser \<Rightarrow> char \<Rightarrow> parser" where
  "parse_char (Parser Record_start f cells recs) c = start_record recs c"
| "parse_char (Parser Field_start f cells recs) c = start_field cells recs c"
| "parse_char (Parser In_field f cells recs) c =
     (if c = CHR 0x0A then end_record Record_start (cells @ [f]) recs
      else if c = CHR 0x0D then end_record After_cr (cells @ [f]) recs
      else if c = CHR '','' then Parser Field_start [] (cells @ [f]) recs
      else Parser In_field (f @ [c]) cells recs)"
| "parse_char (Parser In_quoted f cells recs) c =
     (if c = CHR 0x22 then Parser Quote_in_quoted f cells recs
      else Parser In_quoted (f @ [c]) cells recs)"
| "parse_char (Parser Quote_in_quoted f cells recs) c =
     (if c = CHR 0x22 then Parser In_quoted (f @ [c]) cells recs
      else if c = CHR '','' then Parser Field_start [] (cells @ [f]) recs
      else if c = CHR 0x0A then end_record Record_start (cells @ [f]) recs
      else if c = CHR 0x0D then end_record After_cr (cells @ [f]) recs
      else Parser In_field (f @ [c]) cells recs)"
| "parse_char (Parser After_cr f cells recs) c =
     (if c = CHR 0x0A then Parser Record_start [] [] recs else start_record recs c)"

fun parse_end :: "parser \<Rightarrow> string list list" where
  "parse_end (Parser Record_start f cells recs) = recs"
| "parse_end (Parser After_cr f cells recs) = recs"
| "parse_end (Parser st f cells recs) = recs @ [cells @ [f]]"

definition csv_parse :: "string \<Rightarrow> string list list" where
  "csv_parse text = parse_end (foldl parse_char (Parser Record_start [] [] []) text)"

subsection \<open>From cells back to records\<close>

text \<open>
  The integer that a cell denotes when it is a decimal numeral with an optional minus
  sign, \<open>None\<close> for any other text, and the record that a data row of either export
  stands for, \<open>None\<close> for a row that has not the cells of one. \<open>float_of_str\<close> reads a
  float from its text; it is a parameter, like \<open>str_float\<close>.
\<close>

definition is_digit :: "char \<Rightarrow> bool" where
  "is_digit c \<longleftrightarrow> c \<in> set ''0123456789''"

definition digit_val :: "char \<Rightarrow> nat" where
  "digit_val c = of_char c - 48"

definition nat_of_digits :: "string \<Rightarrow> nat option" where
  "nat_of_digits s =
     (if s \<noteq> [] \<and> list_all is_digit s
      then Some (foldl (\<lambda>a c. 10 * a + digit_val c) 0 s) else None)"

definition int_of_str :: "string \<Rightarrow> int option" where
  "int_of_str s =
     (case s of
        [] \<Rightarrow> None
      | c # cs \<Rightarrow>
          if c = CHR ''-'' then map_option (\<lambda>n. - int n) (nat_of_digits cs)
          else map_option int (nat_of_digits s))"

fun parse_sensor_row :: "(string \<Rightarrow> pyfloat) \<Rightarrow> string list \<Rightarrow> (int \<times> sensor_row) option" where
  "parse_sensor_row float_of_str [c0, c1, c2, c3, c4, c5] =
     (case int_of_str c0 of
        None \<Rightarrow> None
      | Some i \<Rightarrow>
          Some (i, \<lparr>sensor_name = c1, value = float_of_str c2, unit = c3, timestamp = c4,
                    sensor_row.status = c5\<rparr>))"
| "parse_sensor_row float_of_str cells = None"

fun parse_order_row :: "(string \<Rightarrow> pyfloat) \<Rightarrow> string list \<Rightarrow> (int \<times> order_row) option" where
  "parse_order_row float_of_str [c0, c1, c2, c3, c4, c5, c6] =
     (case (int_of_str c0, int_of_str c3) of
        (Some i, Some q) \<Rightarrow>
          Some (i, \<lparr>customer_name = c1, product = c2, quantity = q,
                    unit_price = float_of_str c4, order_date = c5, order_row.status = c6\<rparr>)
      | _ \<Rightarrow> None)"
| "parse_order_row float_of_str cells = None"

subsection \<open>An example of files and of float printing\<close>

text \<open>
  The printing and the reading of the floats of the two example tables, and a file system
  without files in which every path can be opened.
\<close>

definition str_float_example :: "pyfloat \<Rightarrow> string" where
  "str_float_example x =
     (if x = Finite 21.5 then ''21.5'' else if x = Finite 2 then ''2.0''
      else if x = Finite 10.5 then ''10.5'' else ''0.0'')"

definition float_of_str_example :: "string \<Rightarrow> pyfloat" where
  "float_of_str_example s =
     (if s = ''21.5'' then Finite 21.5 else if s = ''2.0'' then Finite 2
      else if s = ''10.5'' then Finite 10.5 else Finite 0)"

definition fs_example :: filesystem where
  "fs_example = \<lparr>contents = Map.empty, writable = (\<lambda>path. True)\<rparr>"

section \<open>Facts about one table\<close>

lemma fold_max_ge: "(a::int) \<le> fold max xs a"
  by (induction xs arbitrary: a) (auto intro: order_trans [OF max.cobounded2])

lemma fold_max_mem: "x \<in> set xs \<Longrightarrow> (x::int) \<le> fold max xs a"
proof (induction xs arbitrary: a)
  case Nil then show ?case by simp
next
  case (Cons y ys)
  show ?case
  proof (cases "x = y")
    case True
    have "y \<le> max y a" by simp
    also have "\<dots> \<le> fold max ys (max y a)" by (rule fold_max_ge)
    finally show ?thesis using True by simp
  next
    case False
    with Cons show ?thesis by simp
  qed
qed

lemma fold_max_bound: "(a::int) \<le> b \<Longrightarrow> \<forall>x\<in>set xs. x \<le> b \<Longrightarrow> fold max xs a \<le> b"
  by (induction xs arbitrary: a) auto

lemma max_rowid_seq: "sqlite_sequence t \<le> max_rowid t"
  by (simp add: max_rowid_def fold_max_ge)

lemma max_rowid_row: "kr \<in> set (table_rows t) \<Longrightarrow> fst kr \<le> max_rowid t"
  by (simp add: max_rowid_def fold_max_mem)

lemma max_rowid_inv: "table_inv t \<Longrightarrow> max_rowid t = sqlite_sequence t"
  unfolding table_inv_def max_rowid_def list_all_iff
  by (intro antisym fold_max_bound fold_max_ge) auto

lemma empty_table_inv: "table_inv empty_table"
  by (simp add: table_inv_def empty_table_def MAX_ROWID_def)

lemma sql_insert_inv:
  assumes "table_inv t" "sql_insert c r t = (res, t')"
  shows "table_inv t'"
proof (cases res)
  case (Inl e)
  with assms show ?thesis by (auto simp: sql_insert_def Let_def split: if_splits)
next
  case (Inr i)
  with assms have i: "i = sqlite_sequence t + 1" "sqlite_sequence t < MAX_ROWID"
    and t': "t' = \<lparr>table_rows = table_rows t @ [(i, r)], sqlite_sequence = i\<rparr>"
    by (auto simp: sql_insert_def Let_def max_rowid_inv split: if_splits)
  from assms(1) i show ?thesis
    unfolding t' table_inv_def list_all_iff by (auto simp: rev_image_eqI)
qed

lemma sql_insert_id:
  assumes "sql_insert c r t = (Inr i, t')"
  shows "sqlite_sequence t < i" "sqlite_sequence t' = i" "\<forall>kr\<in>set (table_rows t). fst kr < i"
proof -
  from assms have i: "i = max_rowid t + 1"
    and t': "t' = \<lparr>table_rows = table_rows t @ [(i, r)], sqlite_sequence = i\<rparr>"
    by (auto simp: sql_insert_def Let_def split: if_splits)
  show "sqlite_sequence t < i" using max_rowid_seq [of t] i by simp
  show "sqlite_sequence t' = i" using t' by simp
  show "\<forall>kr\<in>set (table_rows t). fst kr < i"
  proof
    fix kr assume "kr \<in> set (table_rows t)"
    then have "fst kr \<le> max_rowid t" by (rule max_rowid_row)
    then show "fst kr < i" using i by simp
  qed
qed

lemma sql_insert_seq: "sql_insert c r t = (res, t') \<Longrightarrow> sqlite_sequence t \<le> sqlite_sequence t'"
  using max_rowid_seq [of t] by (auto simp: sql_insert_def Let_def split: if_splits)

lemma map_fst_rewrite: "map fst (map (\<lambda>kr. if fst kr = i then (fst kr, r) else kr) xs) = map fst xs"
  by (induction xs) auto

lemma sql_update_rows:
  "sql_update c i r t = (res, t') \<Longrightarrow> map fst (table_rows t') = map fst (table_rows t)"
  by (auto simp: sql_update_def map_fst_rewrite simp del: map_map split: if_splits)

lemma sql_update_seq: "sql_update c i r t = (res, t') \<Longrightarrow> sqlite_sequence t' = sqlite_sequence t"
  by (auto simp: sql_update_def split: if_splits)

lemma table_inv_keys:
  "table_inv t \<longleftrightarrow>
     0 \<le> sqlite_sequence t \<and> sqlite_sequence t \<le> MAX_ROWID \<and>
     (\<forall>k\<in>set (map fst (table_rows t)). 0 < k \<and> k \<le> sqlite_sequence t) \<and>
     distinct (map fst (table_rows t))"
  by (simp add: table_inv_def list_all_iff)

lemma sql_update_inv: "table_inv t \<Longrightarrow> sql_update c i r t = (res, t') \<Longrightarrow> table_inv t'"
  unfolding table_inv_keys using sql_update_rows [of c i r t res t'] sql_update_seq [of c i r t res t']
  by simp

lemma sql_delete_seq: "sql_delete i t = (n, t') \<Longrightarrow> sqlite_sequence t' = sqlite_sequence t"
  by (auto simp: sql_delete_def)

lemma sql_delete_inv: "table_inv t \<Longrightarrow> sql_delete i t = (n, t') \<Longrightarrow> table_inv t'"
  unfolding table_inv_keys by (fastforce simp: sql_delete_def distinct_map_filter)

lemma matching_empty: "matching i t = [] \<longleftrightarrow> i \<notin> fst ` set (table_rows t)"
  by (auto simp: matching_def filter_empty_conv)

lemma table_inv_range:
  assumes "table_inv t" "i \<in> fst ` set (table_rows t)"
  shows "sqlite_int i"
  using assms unfolding table_inv_def list_all_iff sqlite_int_def MAX_ROWID_def by fastforce

lemma filter_absent: "i \<notin> fst ` set xs \<Longrightarrow> filter (\<lambda>kr. fst kr \<noteq> i) xs = xs"
  by (induction xs) auto

lemma delete_reading_eq:
  "delete_reading i db =
     (if sqlite_int i
      then (Inr (matching i db \<noteq> []), db\<lparr>table_rows := filter (\<lambda>kr. fst kr \<noteq> i) (table_rows db)\<rparr>)
      else (Inl OverflowError, db))"
  by (simp add: delete_reading_def sql_delete_def)

lemma delete_order_eq:
  "delete_order i db =
     (if sqlite_int i
      then (Inr (matching i db \<noteq> []), db\<lparr>table_rows := filter (\<lambda>kr. fst kr \<noteq> i) (table_rows db)\<rparr>)
      else (Inl OverflowError, db))"
  by (simp add: delete_order_def sql_delete_def)

lemma matching_after_delete:
  "matching i (t\<lparr>table_rows := filter (\<lambda>kr. fst kr \<noteq> i) (table_rows t)\<rparr>) = []"
  by (simp add: matching_def filter_empty_conv)

lemma delete_absent_noop:
  "matching i t = [] \<Longrightarrow> t\<lparr>table_rows := filter (\<lambda>kr. fst kr \<noteq> i) (table_rows t)\<rparr> = t"
  by (simp add: matching_empty filter_absent)

lemma sdb_example_inv: "table_inv sdb_example"
  by (simp add: table_inv_def sdb_example_def MAX_ROWID_def)

lemma odb_example_inv: "table_inv odb_example"
  by (simp add: table_inv_def odb_example_def MAX_ROWID_def)

lemma update_absent_noop:
  "matching i t = [] \<Longrightarrow>
   t\<lparr>table_rows := map (\<lambda>kr. if fst kr = i then (fst kr, r) else kr) (table_rows t)\<rparr> = t"
proof -
  assume "matching i t = []"
  then have "\<forall>kr\<in>set (table_rows t). fst kr \<noteq> i"
    by (auto simp: matching_empty)
  then have "map (\<lambda>kr. if fst kr = i then (fst kr, r) else kr) (table_rows t) = table_rows t"
    by (induction "table_rows t") (simp_all add: map_idI)
  then show ?thesis by simp
qed

lemma filter_rewritten:
  "filter (\<lambda>kr. fst kr = i) (map (\<lambda>kr. if fst kr = i then (fst kr, r) else kr) xs)
     = map (\<lambda>_. (i, r)) (filter (\<lambda>kr. fst kr = i) xs)"
  by (induction xs) auto

lemma select_after_update:
  "matching i t \<noteq> [] \<Longrightarrow>
   sql_select_one i (t\<lparr>table_rows := map (\<lambda>kr. if fst kr = i then (fst kr, r) else kr) (table_rows t)\<rparr>)
     = Some (i, r)"
  by (cases "filter (\<lambda>kr. fst kr = i) (table_rows t)")
     (simp_all add: sql_select_one_def matching_def filter_rewritten)

lemma select_after_insert:
  assumes "sql_insert c r t = (Inr i, t')"
  shows "sql_select_one i t' = Some (i, r)"
proof -
  from assms have t': "table_rows t' = table_rows t @ [(i, r)]"
    by (auto simp: sql_insert_def Let_def split: if_splits)
  have "\<forall>kr\<in>set (table_rows t). fst kr \<noteq> i"
    using sql_insert_id(3) [OF assms] by fastforce
  then have "filter (\<lambda>kr. fst kr = i) (table_rows t) = []"
    by (simp add: filter_empty_conv)
  then show ?thesis by (simp add: sql_select_one_def matching_def t')
qed

lemma sql_insert_eq:
  "sql_insert c r t =
     (if MAX_ROWID \<le> max_rowid t then (Inl OperationalError, t)
      else if \<not> c r then (Inl IntegrityError, t)
      else (Inr (max_rowid t + 1),
            \<lparr>table_rows = table_rows t @ [(max_rowid t + 1, r)], sqlite_sequence = max_rowid t + 1\<rparr>))"
  by (simp add: sql_insert_def Let_def)

lemma select_appended:
  "sql_select_one (max_rowid t + 1)
     \<lparr>table_rows = table_rows t @ [(max_rowid t + 1, r)], sqlite_sequence = s\<rparr>
   = Some (max_rowid t + 1, r)"
proof -
  have "\<forall>kr\<in>set (table_rows t). fst kr \<noteq> max_rowid t + 1"
    using max_rowid_row [of _ t] by fastforce
  then have "filter (\<lambda>kr. fst kr = max_rowid t + 1) (table_rows t) = []"
    by (simp add: filter_empty_conv)
  then show ?thesis by (simp add: sql_select_one_def matching_def)
qed

lemma insert_id_int:
  assumes "table_inv t" "sql_insert c r t = (Inr k, t')"
  shows "sqlite_int k"
proof -
  from assms(2) have "k = max_rowid t + 1" "max_rowid t < MAX_ROWID"
    by (auto simp: sql_insert_eq split: if_splits)
  then show ?thesis
    using assms(1) max_rowid_inv [OF assms(1)]
    by (simp add: table_inv_def sqlite_int_def MAX_ROWID_def)
qed

lemma max_rowid_empty: "max_rowid empty_table = 0"
  by (simp add: max_rowid_def empty_table_def)

lemma empty_table_rows: "table_rows empty_table = []"
  by (simp add: empty_table_def)

section \<open>The methods, with the SQL statement unfolded\<close>

lemma add_reading_eq:
  "add_reading n v u ts st now db =
     (if MAX_ROWID \<le> max_rowid db then (Inl OperationalError, db)
      else if v = NaN then (Inl IntegrityError, db)
      else (Inr (max_rowid db + 1),
            \<lparr>table_rows = table_rows db @
               [(max_rowid db + 1,
                 \<lparr>sensor_name = strip n, value = v, unit = strip u,
                  timestamp = (case ts of None \<Rightarrow> now | Some x \<Rightarrow> x),
                  sensor_row.status = strip (case st of None \<Rightarrow> ''Normal'' | Some x \<Rightarrow> x)\<rparr>)],
             sqlite_sequence = max_rowid db + 1\<rparr>))"
  by (simp add: add_reading_def sql_insert_eq sensor_constraints_def not_null_def)

lemma update_reading_eq:
  "update_reading i n v u ts st db =
     (if \<not> sqlite_int i then (Inl OverflowError, db)
      else if matching i db \<noteq> [] \<and> v = NaN then (Inl IntegrityError, db)
      else (Inr (matching i db \<noteq> []),
            db\<lparr>table_rows :=
                 map (\<lambda>kr. if fst kr = i
                            then (fst kr, \<lparr>sensor_name = strip n, value = v, unit = strip u,
                                           timestamp = strip ts, sensor_row.status = strip st\<rparr>)
                            else kr) (table_rows db)\<rparr>))"
  by (simp add: update_reading_def sql_update_def sensor_constraints_def not_null_def)

lemma add_order_eq:
  "add_order c p q up od st today db =
     (if \<not> sqlite_int q then (Inl OverflowError, db)
      else if MAX_ROWID \<le> max_rowid db then (Inl OperationalError, db)
      else if up = NaN \<or> q \<le> 0 \<or> \<not> float_ge0 up then (Inl IntegrityError, db)
      else (Inr (max_rowid db + 1),
            \<lparr>table_rows = table_rows db @
               [(max_rowid db + 1,
                 \<lparr>customer_name = strip c, product = strip p, quantity = q, unit_price = up,
                  order_date = (case od of None \<Rightarrow> today | Some x \<Rightarrow> x),
                  order_row.status = strip (case st of None \<Rightarrow> ''pending'' | Some x \<Rightarrow> x)\<rparr>)],
             sqlite_sequence = max_rowid db + 1\<rparr>))"
  by (auto simp: add_order_def sql_insert_eq order_constraints_def not_null_def)

lemma update_order_eq:
  "update_order i c p q up od st db =
     (if \<not> sqlite_int q \<or> \<not> sqlite_int i then (Inl OverflowError, db)
      else if matching i db \<noteq> [] \<and> (up = NaN \<or> q \<le> 0 \<or> \<not> float_ge0 up) then (Inl IntegrityError, db)
      else (Inr (matching i db \<noteq> []),
            db\<lparr>table_rows :=
                 map (\<lambda>kr. if fst kr = i
                            then (fst kr, \<lparr>customer_name = strip c, product = strip p, quantity = q,
                                           unit_price = up, order_date = strip od,
                                           order_row.status = strip st\<rparr>)
                            else kr) (table_rows db)\<rparr>))"
  by (auto simp: update_order_def sql_update_def order_constraints_def not_null_def)

lemma float_lt0_not_ge0: "float_lt0 x \<Longrightarrow> \<not> float_ge0 x"
  by (cases x) auto

section \<open>Evaluations on the examples\<close>

lemma example_ids:
  "fst ` set (table_rows sdb_example) = {1, 3}" "fst ` set (table_rows odb_example) = {1, 2}"
  by (simp_all add: sdb_example_def odb_example_def)

lemma small_sqlite_int: "sqlite_int 1" "sqlite_int 2" "sqlite_int 3" "sqlite_int 9"
  by (simp_all add: sqlite_int_def MAX_ROWID_def)

lemma strip_blank: "strip ''   '' = []" "strip '' '' = []" "strip [] = []"
  by (simp_all add: strip_def py_isspace_def)

lemma strip_examples:
  "strip ''  Valve-8  '' = ''Valve-8''" "strip ''kPa'' = ''kPa''"
  "strip ''2024-03-01 00:00:00'' = ''2024-03-01 00:00:00''" "strip ''Error'' = ''Error''"
  "strip '' Bob '' = ''Bob''" "strip ''Nut''  = ''Nut''" "strip ''2024-03-01'' = ''2024-03-01''"
  "strip ''shipped'' = ''shipped''"
  by (simp_all add: strip_def py_isspace_def)

section \<open>Every call keeps a table well formed\<close>

lemma sensor_do_step:
  assumes "table_inv db" "sensor_do c db = (r, db')"
  shows "table_inv db'" "sqlite_sequence db \<le> sqlite_sequence db'"
    "r = Some i \<Longrightarrow> sqlite_sequence db < i \<and> sqlite_sequence db' = i"
proof -
  have "table_inv db' \<and> sqlite_sequence db \<le> sqlite_sequence db'
      \<and> (r = Some i \<longrightarrow> sqlite_sequence db < i \<and> sqlite_sequence db' = i)"
  proof (cases c)
    case (Add_reading n v u ts st now)
    obtain res t where a: "add_reading n v u ts st now db = (res, t)" by force
    then obtain row where i: "sql_insert sensor_constraints row db = (res, t)"
      by (simp add: add_reading_def)
    show ?thesis
    proof (cases res)
      case (Inl e)
      with a assms(2) Add_reading have "db' = t" "r = None" by auto
      with sql_insert_inv [OF assms(1) i] sql_insert_seq [OF i] show ?thesis by simp
    next
      case (Inr k)
      with a assms(2) Add_reading have "db' = t" "r = Some k" by auto
      with sql_insert_inv [OF assms(1) i] sql_insert_seq [OF i] sql_insert_id(1,2) [OF i [unfolded Inr]]
      show ?thesis by auto
    qed
  next
    case (Update_reading k n v u ts st)
    with assms(2) have r: "r = None" and d: "db' = snd (update_reading k n v u ts st db)" by auto
    show ?thesis
    proof (cases "sqlite_int k")
      case False
      with d assms(1) r show ?thesis by (simp add: update_reading_def)
    next
      case True
      obtain res t row where u: "sql_update sensor_constraints k row db = (res, t)" "db' = t"
        using d True by (cases "sql_update sensor_constraints k
            \<lparr>sensor_name = strip n, value = v, unit = strip u, timestamp = strip ts,
             sensor_row.status = strip st\<rparr> db")
          (auto simp: update_reading_def split: sum.splits)
      with sql_update_inv [OF assms(1) u(1)] sql_update_seq [OF u(1)] r show ?thesis by simp
    qed
  next
    case (Delete_reading k)
    with assms(2) have r: "r = None" and d: "db' = snd (delete_reading k db)" by auto
    show ?thesis
    proof (cases "sqlite_int k")
      case False
      with d assms(1) r show ?thesis by (simp add: delete_reading_def)
    next
      case True
      obtain m t where u: "sql_delete k db = (m, t)" by force
      with d True have "db' = t" by (simp add: delete_reading_def)
      with sql_delete_inv [OF assms(1) u] sql_delete_seq [OF u] r show ?thesis by simp
    qed
  qed
  then show "table_inv db'" "sqlite_sequence db \<le> sqlite_sequence db'"
    "r = Some i \<Longrightarrow> sqlite_sequence db < i \<and> sqlite_sequence db' = i" by auto
qed

lemma sensor_run_ids:
  "table_inv db \<Longrightarrow>
   sorted_wrt (<) (fst (sensor_run cs db))
   \<and> (\<forall>i\<in>set (fst (sensor_run cs db)). sqlite_sequence db < i)"
proof (induction cs arbitrary: db)
  case Nil
  then show ?case by simp
next
  case (Cons c cs)
  obtain r db' where s: "sensor_do c db = (r, db')" by force
  note st = sensor_do_step [OF Cons.prems s]
  note ih = Cons.IH [OF st(1)]
  show ?case
  proof (cases r)
    case None
    with s ih st(2) show ?thesis by force
  next
    case (Some i)
    with st(3) have i: "sqlite_sequence db < i" "sqlite_sequence db' = i" by auto
    from s Some have "fst (sensor_run (c # cs) db) = i # fst (sensor_run cs db')"
      by (simp split: prod.splits)
    with ih i show ?thesis by force
  qed
qed

lemma order_do_step:
  assumes "table_inv db" "order_do c db = (r, db')"
  shows "table_inv db'" "sqlite_sequence db \<le> sqlite_sequence db'"
    "r = Some i \<Longrightarrow> sqlite_sequence db < i \<and> sqlite_sequence db' = i"
proof -
  have "table_inv db' \<and> sqlite_sequence db \<le> sqlite_sequence db'
      \<and> (r = Some i \<longrightarrow> sqlite_sequence db < i \<and> sqlite_sequence db' = i)"
  proof (cases c)
    case (Add_order cn p q up od st today)
    obtain res t where a: "add_order cn p q up od st today db = (res, t)" by force
    show ?thesis
    proof (cases "sqlite_int q")
      case False
      with a assms Add_order show ?thesis by (auto simp: add_order_def)
    next
      case True
    with a obtain row where i: "sql_insert order_constraints row db = (res, t)"
      by (simp add: add_order_def)
    show ?thesis
    proof (cases res)
      case (Inl e)
      with a assms(2) Add_order have "db' = t" "r = None" by auto
      with sql_insert_inv [OF assms(1) i] sql_insert_seq [OF i] show ?thesis by simp
    next
      case (Inr k)
      with a assms(2) Add_order have "db' = t" "r = Some k" by auto
      with sql_insert_inv [OF assms(1) i] sql_insert_seq [OF i] sql_insert_id(1,2) [OF i [unfolded Inr]]
      show ?thesis by auto
    qed
    qed
  next
    case (Update_order k cn p q up od st)
    with assms(2) have r: "r = None" and d: "db' = snd (update_order k cn p q up od st db)" by auto
    show ?thesis
    proof (cases "sqlite_int q \<and> sqlite_int k")
      case False
      with d assms(1) r show ?thesis by (auto simp add: update_order_def)
    next
      case True
      obtain res t row where u: "sql_update order_constraints k row db = (res, t)" "db' = t"
        using d True by (cases "sql_update order_constraints k
            \<lparr>customer_name = strip cn, product = strip p, quantity = q, unit_price = up,
             order_date = strip od, order_row.status = strip st\<rparr> db")
          (auto simp: update_order_def split: sum.splits)
      with sql_update_inv [OF assms(1) u(1)] sql_update_seq [OF u(1)] r show ?thesis by simp
    qed
  next
    case (Delete_order k)
    with assms(2) have r: "r = None" and d: "db' = snd (delete_order k db)" by auto
    show ?thesis
    proof (cases "sqlite_int k")
      case False
      with d assms(1) r show ?thesis by (simp add: delete_order_def)
    next
      case True
      obtain m t where u: "sql_delete k db = (m, t)" by force
      with d True have "db' = t" by (simp add: delete_order_def)
      with sql_delete_inv [OF assms(1) u] sql_delete_seq [OF u] r show ?thesis by simp
    qed
  qed
  then show "table_inv db'" "sqlite_sequence db \<le> sqlite_sequence db'"
    "r = Some i \<Longrightarrow> sqlite_sequence db < i \<and> sqlite_sequence db' = i" by auto
qed

lemma order_run_ids:
  "table_inv db \<Longrightarrow>
   sorted_wrt (<) (fst (order_run cs db))
   \<and> (\<forall>i\<in>set (fst (order_run cs db)). sqlite_sequence db < i)"
proof (induction cs arbitrary: db)
  case Nil
  then show ?case by simp
next
  case (Cons c cs)
  obtain r db' where s: "order_do c db = (r, db')" by force
  note st = order_do_step [OF Cons.prems s]
  note ih = Cons.IH [OF st(1)]
  show ?case
  proof (cases r)
    case None
    with s ih st(2) show ?thesis by force
  next
    case (Some i)
    with st(3) have i: "sqlite_sequence db < i" "sqlite_sequence db' = i" by auto
    from s Some have "fst (order_run (c # cs) db) = i # fst (order_run cs db')"
      by (simp split: prod.splits)
    with ih i show ?thesis by force
  qed
qed

section \<open>Parsing undoes the writer\<close>

lemma in_field_plain:
  "\<not> list_ex csv_special s \<Longrightarrow>
   foldl parse_char (Parser In_field f cells recs) s = Parser In_field (f @ s) cells recs"
  by (induction s arbitrary: f) (simp_all add: csv_special_def)

lemma in_quoted_escaped:
  "foldl parse_char (Parser In_quoted f cells recs)
     (concat (map (\<lambda>c. if c = CHR 0x22 then [CHR 0x22, CHR 0x22] else [c]) s))
   = Parser In_quoted (f @ s) cells recs"
  by (induction s arbitrary: f) simp_all

lemma quoted_field:
  "foldl parse_char (Parser In_quoted [] cells recs) (tl (csv_quote s))
   = Parser Quote_in_quoted s cells recs"
  using in_quoted_escaped [of "[]" cells recs s] by (simp add: csv_quote_def)

lemma plain_field:
  assumes "\<not> list_ex csv_special s" "s \<noteq> []"
  shows "foldl parse_char (Parser Field_start f cells recs) s = Parser In_field s cells recs"
    and "foldl parse_char (Parser Record_start f cells recs) s = Parser In_field s [] recs"
proof -
  from assms obtain c s' where s: "s = c # s'" by (cases s) auto
  with assms(1) have c: "\<not> csv_special c" and s': "\<not> list_ex csv_special s'" by auto
  from c have 1: "start_field cs recs c = Parser In_field [c] cs recs" for cs
    by (simp add: start_field_def csv_special_def)
  from c have 2: "start_record recs c = Parser In_field [c] [] recs"
    by (simp add: start_record_def 1 csv_special_def)
  show "foldl parse_char (Parser Field_start f cells recs) s = Parser In_field s cells recs"
    using in_field_plain [OF s'] by (simp add: s 1)
  show "foldl parse_char (Parser Record_start f cells recs) s = Parser In_field s [] recs"
    using in_field_plain [OF s'] by (simp add: s 2)
qed

lemma field_start_field:
  "foldl parse_char (Parser Field_start f cells recs) (csv_field s) =
     (if list_ex csv_special s then Parser Quote_in_quoted s cells recs
      else if s = [] then Parser Field_start f cells recs
      else Parser In_field s cells recs)"
proof -
  have q: "csv_quote s = CHR 0x22 # tl (csv_quote s)" by (simp add: csv_quote_def)
  have "foldl parse_char (Parser Field_start f cells recs) (csv_quote s)
      = Parser Quote_in_quoted s cells recs"
    by (subst q) (simp add: start_field_def quoted_field)
  then show ?thesis
    by (simp add: csv_field_def plain_field)
qed

lemma field_start_record:
  "foldl parse_char (Parser Record_start f cells recs) (csv_field s) =
     (if list_ex csv_special s then Parser Quote_in_quoted s [] recs
      else if s = [] then Parser Record_start f cells recs
      else Parser In_field s [] recs)"
proof -
  have q: "csv_quote s = CHR 0x22 # tl (csv_quote s)" by (simp add: csv_quote_def)
  have "foldl parse_char (Parser Record_start f cells recs) (csv_quote s)
      = Parser Quote_in_quoted s [] recs"
    by (subst q) (simp add: start_record_def start_field_def quoted_field)
  then show ?thesis
    by (simp add: csv_field_def plain_field)
qed

lemma field_comma:
  "foldl parse_char (Parser Field_start f cells recs) (csv_field s @ [CHR '','']) =
     Parser Field_start [] (cells @ [s]) recs"
  "foldl parse_char (Parser Record_start f cells recs) (csv_field s @ [CHR '','']) =
     Parser Field_start [] [s] recs"
  by (simp_all add: field_start_field field_start_record start_field_def start_record_def)

lemma field_crlf:
  "foldl parse_char (Parser Field_start f cells recs) (csv_field s @ [CHR 0x0D, CHR 0x0A]) =
     Parser Record_start [] [] (recs @ [cells @ [s]])"
  "s \<noteq> [] \<Longrightarrow>
   foldl parse_char (Parser Record_start f cells recs) (csv_field s @ [CHR 0x0D, CHR 0x0A]) =
     Parser Record_start [] [] (recs @ [[s]])"
  by (simp_all add: field_start_field field_start_record start_field_def start_record_def
      end_record_def)

lemma fields_crlf:
  "foldl parse_char (Parser Field_start f cells recs)
     (join_fields (map csv_field (c # cs)) @ [CHR 0x0D, CHR 0x0A]) =
   Parser Record_start [] [] (recs @ [cells @ c # cs])"
proof (induction cs arbitrary: c cells f)
  case Nil
  then show ?case using field_crlf(1) [of f cells recs c] by simp
next
  case (Cons d ds)
  have "foldl parse_char (Parser Field_start f cells recs)
          (join_fields (map csv_field (c # d # ds)) @ [CHR 0x0D, CHR 0x0A])
      = foldl parse_char
          (foldl parse_char (Parser Field_start f cells recs) (csv_field c @ [CHR '','']))
          (join_fields (map csv_field (d # ds)) @ [CHR 0x0D, CHR 0x0A])"
    by simp
  also have "\<dots> = Parser Record_start [] [] (recs @ [(cells @ [c]) @ d # ds])"
    unfolding field_comma(1) by (rule Cons.IH)
  finally show ?case by simp
qed

lemma parse_writerow:
  "foldl parse_char (Parser Record_start [] [] recs) (writerow cells) =
   Parser Record_start [] [] (recs @ [cells])"
proof (cases cells)
  case Nil
  then show ?thesis by (simp add: writerow_def start_record_def end_record_def)
next
  case (Cons c cs)
  show ?thesis
  proof (cases cs)
    case Nil
    show ?thesis
    proof (cases "c = []")
      case True
      with Nil Cons show ?thesis
        by (simp add: writerow_def csv_quote_def start_record_def start_field_def end_record_def)
    next
      case False
      with Nil Cons field_crlf(2) [OF False, of "[]" "[]" recs] show ?thesis
        by (simp add: writerow_def)
    qed
  next
    case (Cons d ds)
    have "foldl parse_char (Parser Record_start [] [] recs) (writerow (c # d # ds))
        = foldl parse_char
            (foldl parse_char (Parser Record_start [] [] recs) (csv_field c @ [CHR '','']))
            (join_fields (map csv_field (d # ds)) @ [CHR 0x0D, CHR 0x0A])"
      by (simp add: writerow_def)
    also have "\<dots> = Parser Record_start [] [] (recs @ [[c] @ d # ds])"
      unfolding field_comma(2) by (rule fields_crlf)
    finally show ?thesis using Cons \<open>cells = c # cs\<close> by simp
  qed
qed

lemma parse_writerows:
  "foldl parse_char (Parser Record_start [] [] recs) (concat (map writerow rows)) =
   Parser Record_start [] [] (recs @ rows)"
  by (induction rows arbitrary: recs) (simp_all add: parse_writerow)

lemma csv_round_trip: "csv_parse (concat (map writerow rows)) = rows"
  by (simp add: csv_parse_def parse_writerows)

section \<open>Numerals and rows read back\<close>

lemma digit_char_props:
  assumes "d < 10"
  shows "digit_val (digit_char d) = d" "is_digit (digit_char d)" "digit_char d \<noteq> CHR ''-''"
proof -
  from assms have "d \<in> {0, 1, 2, 3, 4, 5, 6, 7, 8, 9}" by auto
  then show "digit_val (digit_char d) = d" "is_digit (digit_char d)" "digit_char d \<noteq> CHR ''-''"
    by (auto simp: digit_val_def digit_char_def is_digit_def)
qed

lemma digits_of_value:
  "digits_of n \<noteq> [] \<and> list_all is_digit (digits_of n)
   \<and> foldl (\<lambda>a c. 10 * a + digit_val c) 0 (digits_of n) = n"
proof (induction n rule: digits_of.induct)
  case (1 n)
  show ?case
  proof (cases "n < 10")
    case True
    then show ?thesis
      by (subst (1 2 3) digits_of.simps) (simp add: digit_char_props)
  next
    case False
    with 1 show ?thesis
      by (subst (1 2 3) digits_of.simps) (simp add: digit_char_props)
  qed
qed

lemma nat_of_digits_of: "nat_of_digits (digits_of n) = Some n"
  using digits_of_value [of n] by (simp add: nat_of_digits_def)

lemma digits_of_hd: "\<exists>c cs. digits_of n = c # cs \<and> c \<noteq> CHR ''-''"
proof -
  from digits_of_value [of n] obtain c cs where d: "digits_of n = c # cs" "is_digit c"
    by (cases "digits_of n") auto
  then have "c \<noteq> CHR ''-''" by (auto simp: is_digit_def)
  with d show ?thesis by blast
qed

lemma int_of_str_int: "int_of_str (str_int i) = Some i"
proof (cases "i < 0")
  case True
  then show ?thesis by (simp add: int_of_str_def str_int_def nat_of_digits_of)
next
  case False
  obtain c cs where d: "digits_of (nat i) = c # cs" "c \<noteq> CHR ''-''"
    using digits_of_hd by blast
  have "nat_of_digits (c # cs) = Some (nat i)" using nat_of_digits_of [of "nat i"] d by simp
  with False d show ?thesis by (simp add: int_of_str_def str_int_def)
qed

lemma parse_sensor_cells:
  "float_of_str (str_float (value (snd kr))) = value (snd kr) \<Longrightarrow>
   parse_sensor_row float_of_str (sensor_cells str_float kr) = Some kr"
  by (cases kr) (simp add: sensor_cells_def int_of_str_int)

lemma parse_order_cells:
  "float_of_str (str_float (unit_price (snd kr))) = unit_price (snd kr) \<Longrightarrow>
   parse_order_row float_of_str (order_cells str_float kr) = Some kr"
  by (cases kr) (simp add: order_cells_def int_of_str_int)

section \<open>The export methods unfolded\<close>

lemma select_all_sorted:
  "sorted (map fst (sql_select_all t))" "length (sql_select_all t) = length (table_rows t)"
  "set (sql_select_all t) = set (table_rows t)"
  by (simp_all add: sql_select_all_def)

lemma distinct_sort_key_keys: "distinct (map f (sort_key f xs)) = distinct (map f xs)"
  by (induction xs) (simp_all add: distinct_insort_key)

lemma select_all_strict:
  "distinct (map fst (table_rows t)) \<Longrightarrow> sorted_wrt (<) (map fst (sql_select_all t))"
  by (simp add: strict_sorted_iff sql_select_all_def distinct_sort_key_keys)

lemma select_all_Nil: "sql_select_all t = [] \<longleftrightarrow> table_rows t = []"
  using select_all_sorted(2) [of t] by (metis length_0_conv)

lemma sensor_export_eq:
  "table_rows db \<noteq> [] \<Longrightarrow> writable fs path \<Longrightarrow>
   sensor_export_to_csv str_float path db fs =
     (Inr (), write_file path
        (concat (map writerow (sensor_columns # map (sensor_cells str_float) (get_all_readings db)))) fs)"
  by (simp add: sensor_export_to_csv_def get_all_readings_def select_all_Nil Let_def
      sensor_header_def sensor_columns_def comp_def)

lemma order_export_eq:
  "table_rows db \<noteq> [] \<Longrightarrow> writable fs path \<Longrightarrow>
   order_export_to_csv str_float path db fs =
     (Inr (), write_file path
        (concat (map writerow (order_columns # map (order_cells str_float) (get_all_orders db)))) fs)"
  by (simp add: order_export_to_csv_def get_all_orders_def select_all_Nil Let_def
      order_header_def order_columns_def comp_def)

section \<open>Every table the methods can build is well formed\<close>

text \<open>
  The theorems below that ask for a well-formed table therefore speak of every table that
  the program has built from a fresh database, by whatever calls.
\<close>

lemma sensor_run_inv: "table_inv db \<Longrightarrow> table_inv (snd (sensor_run cs db))"
proof (induction cs arbitrary: db)
  case Nil
  then show ?case by simp
next
  case (Cons c cs)
  obtain r db' where s: "sensor_do c db = (r, db')" by force
  from Cons.IH [OF sensor_do_step(1) [OF Cons.prems s]] s show ?case
    by (cases r) (auto split: prod.splits)
qed

lemma order_run_inv: "table_inv db \<Longrightarrow> table_inv (snd (order_run cs db))"
proof (induction cs arbitrary: db)
  case Nil
  then show ?case by simp
next
  case (Cons c cs)
  obtain r db' where s: "order_do c db = (r, db')" by force
  from Cons.IH [OF order_do_step(1) [OF Cons.prems s]] s show ?case
    by (cases r) (auto split: prod.splits)
qed

lemma reachable_inv:
  "table_inv (snd (sensor_run cs empty_table))" "table_inv (snd (order_run os empty_table))"
  by (simp_all add: sensor_run_inv order_run_inv empty_table_inv)

section \<open>Numeric constraints of the order table\<close>

text \<open>
  Claim C1, as the code has it. Let an \<^verbatim>\<open>add_order\<close> or \<^verbatim>\<open>update_order\<close> call carry
  \<open>quantity \<le> 0\<close> or \<open>unit_price < 0\<close>. The table after the call is the table before
  it, whatever else holds. The add fails; it fails with \<^verbatim>\<open>IntegrityError\<close> (the
  constraint violation) when the quantity fits a 64-bit integer and a rowid is left. The
  update fails with \<^verbatim>\<open>IntegrityError\<close> when the integers fit and a row has the
  addressed id; when no row has it the update does not fail, it returns \<open>False\<close>.
\<close>

theorem order_constraints_enforced:
  assumes "q \<le> 0 \<or> float_lt0 up"
  shows "snd (add_order c p q up od st today db) = db
       \<and> isl (fst (add_order c p q up od st today db))
       \<and> (sqlite_int q \<and> max_rowid db < MAX_ROWID \<longrightarrow>
            fst (add_order c p q up od st today db) = Inl IntegrityError)
       \<and> snd (update_order i c p q up od' st' db) = db
       \<and> (sqlite_int q \<and> sqlite_int i \<and> i \<in> fst ` set (table_rows db) \<longrightarrow>
            fst (update_order i c p q up od' st' db) = Inl IntegrityError)
       \<and> (sqlite_int q \<and> sqlite_int i \<and> i \<notin> fst ` set (table_rows db) \<longrightarrow>
            fst (update_order i c p q up od' st' db) = Inr False)"
proof -
  from assms have bad: "up = NaN \<or> q \<le> 0 \<or> \<not> float_ge0 up"
    using float_lt0_not_ge0 by blast
  then have nc: "\<not> order_constraints \<lparr>customer_name = cn, product = pn, quantity = q,
       unit_price = up, order_date = d, order_row.status = s\<rparr>" for cn pn d s
    by (auto simp: order_constraints_def not_null_def)
  have a: "add_order c p q up od st today db =
      (if \<not> sqlite_int q then (Inl OverflowError, db)
       else if MAX_ROWID \<le> max_rowid db then (Inl OperationalError, db)
       else (Inl IntegrityError, db))"
    by (simp add: add_order_def sql_insert_eq nc)
  have u: "update_order i c p q up od' st' db =
      (if \<not> sqlite_int q \<or> \<not> sqlite_int i then (Inl OverflowError, db)
       else if matching i db \<noteq> [] then (Inl IntegrityError, db)
       else (Inr False, db))"
    using bad by (simp add: update_order_eq update_absent_noop)
  show ?thesis unfolding a u by (simp add: matching_empty)
qed

theorem order_constraints_enforced_witness:
  "((0::int) \<le> 0 \<or> float_lt0 (Finite 10.5))
   \<and> add_order ''Ada'' ''Nut'' 0 (Finite 10.5) None None ''2024-02-01'' odb_example
       = (Inl IntegrityError, odb_example)
   \<and> update_order 2 ''Ada'' ''Nut'' 0 (Finite 10.5) ''2024-02-01'' ''pending'' odb_example
       = (Inl IntegrityError, odb_example)
   \<and> update_order 7 ''Ada'' ''Nut'' 0 (Finite 10.5) ''2024-02-01'' ''pending'' odb_example
       = (Inr False, odb_example)"
proof -
  have h: "(0::int) \<le> 0 \<or> float_lt0 (Finite 10.5)" by simp
  have r: "sqlite_int 0" "sqlite_int 2" "sqlite_int 7"
    by (simp_all add: sqlite_int_def MAX_ROWID_def)
  have m: "max_rowid odb_example < MAX_ROWID" "2 \<in> fst ` set (table_rows odb_example)"
    "7 \<notin> fst ` set (table_rows odb_example)"
    by (simp_all add: max_rowid_def odb_example_def MAX_ROWID_def)
  note t = order_constraints_enforced [where q = 0 and up = "Finite 10.5" and c = "''Ada''"
      and p = "''Nut''" and od = None and st = None and today = "''2024-02-01''"
      and db = odb_example and od' = "''2024-02-01''" and st' = "''pending''", OF h]
  from t [where i = 2] t [where i = 7] r m h
  show ?thesis by (metis prod.collapse)
qed

text \<open>
  The claim as stated asks for a constraint violation on every such call. An update that
  addresses no row returns \<open>False\<close> instead, and an add whose quantity is below
  \<open>- 2 ^ 63\<close> raises \<^verbatim>\<open>OverflowError\<close> when the parameter is bound.
\<close>

theorem update_missing_row_counterexample:
  "update_order 7 ''Ada'' ''Nut'' 0 (Finite 10.5) ''2024-02-01'' ''pending'' odb_example
     = (Inr False, odb_example)
   \<and> add_order ''Ada'' ''Nut'' (- (2 ^ 63) - 1) (Finite 10.5) None None ''2024-02-01'' odb_example
     = (Inl OverflowError, odb_example)"
  by (simp add: update_order_eq add_order_def sqlite_int_def MAX_ROWID_def matching_def
      odb_example_def)

section \<open>Ids grow\<close>

text \<open>
  Claim C2. On a well-formed table of either store, in every sequence of adds, updates
  and deletes, the ids returned by the adds are strictly increasing, positive, above
  every id that is in the table when the sequence starts and above the largest id ever
  given out before (\<^verbatim>\<open>sqlite_sequence\<close>). So an id is above all ids assigned before it,
  deleted or not, and no id is given out twice.
\<close>

theorem ids_strictly_increasing:
  assumes "table_inv sdb" and "table_inv odb"
  shows "sorted_wrt (<) (fst (sensor_run cs sdb))
       \<and> (\<forall>i\<in>set (fst (sensor_run cs sdb)).
            0 < i \<and> sqlite_sequence sdb < i \<and> (\<forall>k\<in>fst ` set (table_rows sdb). k < i))
       \<and> sorted_wrt (<) (fst (order_run os odb))
       \<and> (\<forall>i\<in>set (fst (order_run os odb)).
            0 < i \<and> sqlite_sequence odb < i \<and> (\<forall>k\<in>fst ` set (table_rows odb). k < i))"
proof -
  have old: "\<forall>k\<in>fst ` set (table_rows t). k \<le> sqlite_sequence t" "0 \<le> sqlite_sequence t"
    if "table_inv t" for t :: "'r table"
    using that by (auto simp: table_inv_def list_all_iff)
  show ?thesis
    using sensor_run_ids [OF assms(1), of cs] order_run_ids [OF assms(2), of os]
      old [OF assms(1)] old [OF assms(2)]
    by fastforce
qed

theorem ids_strictly_increasing_witness:
  "table_inv sdb_example \<and> table_inv odb_example
   \<and> fst (sensor_run [Add_reading ''Fan'' (Finite 7) ''rpm'' None None ''2024-02-01 10:00:00'',
                       Delete_reading 4,
                       Add_reading ''Fan'' NaN ''rpm'' None None ''2024-02-01 10:00:01'',
                       Delete_reading 1,
                       Add_reading ''Fan'' (Finite 8) ''rpm'' None None ''2024-02-01 10:00:02'']
           sdb_example) = [4, 5]
   \<and> sorted_wrt (<) (fst (sensor_run [Add_reading ''Fan'' (Finite 7) ''rpm'' None None ''2024-02-01 10:00:00'',
                       Delete_reading 4,
                       Add_reading ''Fan'' NaN ''rpm'' None None ''2024-02-01 10:00:01'',
                       Delete_reading 1,
                       Add_reading ''Fan'' (Finite 8) ''rpm'' None None ''2024-02-01 10:00:02'']
           sdb_example))
   \<and> fst (order_run [Delete_order 2,
                      Add_order ''Cy'' ''Gear'' 4 (Finite 2.5) None None ''2024-02-01'',
                      Add_order ''Cy'' ''Gear'' 0 (Finite 2.5) None None ''2024-02-01'',
                      Delete_order 3,
                      Add_order ''Di'' ''Cog'' 1 (Finite 0) None None ''2024-02-02'']
           odb_example) = [3, 4]
   \<and> sorted_wrt (<) (fst (order_run [Delete_order 2,
                      Add_order ''Cy'' ''Gear'' 4 (Finite 2.5) None None ''2024-02-01'',
                      Add_order ''Cy'' ''Gear'' 0 (Finite 2.5) None None ''2024-02-01'',
                      Delete_order 3,
                      Add_order ''Di'' ''Cog'' 1 (Finite 0) None None ''2024-02-02'']
           odb_example))"
proof -
  have s: "fst (sensor_run [Add_reading ''Fan'' (Finite 7) ''rpm'' None None ''2024-02-01 10:00:00'',
                       Delete_reading 4,
                       Add_reading ''Fan'' NaN ''rpm'' None None ''2024-02-01 10:00:01'',
                       Delete_reading 1,
                       Add_reading ''Fan'' (Finite 8) ''rpm'' None None ''2024-02-01 10:00:02'']
           sdb_example) = [4, 5]"
    by (simp add: add_reading_eq delete_reading_eq max_rowid_def matching_def sdb_example_def
        MAX_ROWID_def sqlite_int_def)
  have o: "fst (order_run [Delete_order 2,
                      Add_order ''Cy'' ''Gear'' 4 (Finite 2.5) None None ''2024-02-01'',
                      Add_order ''Cy'' ''Gear'' 0 (Finite 2.5) None None ''2024-02-01'',
                      Delete_order 3,
                      Add_order ''Di'' ''Cog'' 1 (Finite 0) None None ''2024-02-02'']
           odb_example) = [3, 4]"
    by (simp add: add_order_eq delete_order_eq max_rowid_def matching_def odb_example_def
        MAX_ROWID_def sqlite_int_def)
  from ids_strictly_increasing [OF sdb_example_inv odb_example_inv] s o
    sdb_example_inv odb_example_inv
  show ?thesis by blast
qed

section \<open>What the store validates\<close>

text \<open>
  Claim C3, as the code has it. Whether an add or an update fails is decided by the
  numbers and the table alone: a NaN, an integer out of the 64-bit range, no rowid left,
  or (orders) \<open>quantity \<le> 0\<close> or a negative price, for an update only when a row has the
  addressed id. No text field takes part. When an add succeeds, the row found under the
  new id holds each text argument trimmed (the date as given); when an update of an
  existing id succeeds, the row found under that id holds every text argument trimmed. So
  a text that is empty after trimming is accepted by both, and where the method trims it,
  it is stored as the empty text.
\<close>

theorem text_not_validated:
  "(isl (fst (add_reading n v u ts st now sdb)) \<longleftrightarrow> MAX_ROWID \<le> max_rowid sdb \<or> v = NaN)
   \<and> (isl (fst (update_reading i n v u ts' st' sdb)) \<longleftrightarrow>
        \<not> sqlite_int i \<or> (i \<in> fst ` set (table_rows sdb) \<and> v = NaN))
   \<and> (isl (fst (add_order c p q up od so today odb)) \<longleftrightarrow>
        \<not> sqlite_int q \<or> MAX_ROWID \<le> max_rowid odb \<or> up = NaN \<or> q \<le> 0 \<or> \<not> float_ge0 up)
   \<and> (isl (fst (update_order j c p q up od' so' odb)) \<longleftrightarrow>
        \<not> sqlite_int q \<or> \<not> sqlite_int j
        \<or> (j \<in> fst ` set (table_rows odb) \<and> (up = NaN \<or> q \<le> 0 \<or> \<not> float_ge0 up)))
   \<and> (\<not> isl (fst (add_reading n v u ts st now sdb)) \<longrightarrow>
        sql_select_one (max_rowid sdb + 1) (snd (add_reading n v u ts st now sdb))
         = Some (max_rowid sdb + 1,
                 \<lparr>sensor_name = strip n, value = v, unit = strip u,
                  timestamp = (case ts of None \<Rightarrow> now | Some x \<Rightarrow> x),
                  sensor_row.status = strip (case st of None \<Rightarrow> ''Normal'' | Some x \<Rightarrow> x)\<rparr>))
   \<and> (\<not> isl (fst (add_order c p q up od so today odb)) \<longrightarrow>
        sql_select_one (max_rowid odb + 1) (snd (add_order c p q up od so today odb))
         = Some (max_rowid odb + 1,
                 \<lparr>customer_name = strip c, product = strip p, quantity = q, unit_price = up,
                  order_date = (case od of None \<Rightarrow> today | Some x \<Rightarrow> x),
                  order_row.status = strip (case so of None \<Rightarrow> ''pending'' | Some x \<Rightarrow> x)\<rparr>))
   \<and> (\<not> isl (fst (update_reading i n v u ts' st' sdb)) \<and> i \<in> fst ` set (table_rows sdb) \<longrightarrow>
        sql_select_one i (snd (update_reading i n v u ts' st' sdb))
         = Some (i, \<lparr>sensor_name = strip n, value = v, unit = strip u,
                     timestamp = strip ts', sensor_row.status = strip st'\<rparr>))
   \<and> (\<not> isl (fst (update_order j c p q up od' so' odb)) \<and> j \<in> fst ` set (table_rows odb) \<longrightarrow>
        sql_select_one j (snd (update_order j c p q up od' so' odb))
         = Some (j, \<lparr>customer_name = strip c, product = strip p, quantity = q,
                     unit_price = up, order_date = strip od',
                     order_row.status = strip so'\<rparr>))"
proof -
  have mi: "i \<in> fst ` set (table_rows sdb) \<longleftrightarrow> matching i sdb \<noteq> []"
    and mj: "j \<in> fst ` set (table_rows odb) \<longleftrightarrow> matching j odb \<noteq> []"
    by (simp_all add: matching_empty)
  show ?thesis
    unfolding mi mj
    by (simp add: add_reading_eq update_reading_eq add_order_eq update_order_eq
        select_appended select_after_update)
qed

theorem text_not_validated_witness:
  "\<not> isl (fst (add_reading ''   '' (Finite 1) '' '' None (Some []) ''2024-02-01 10:00:00'' empty_table))
   \<and> sql_select_one 1 (snd (add_reading ''   '' (Finite 1) '' '' None (Some []) ''2024-02-01 10:00:00'' empty_table))
       = Some (1, \<lparr>sensor_name = [], value = Finite 1, unit = [],
                    timestamp = ''2024-02-01 10:00:00'', sensor_row.status = []\<rparr>)
   \<and> \<not> isl (fst (add_order ''   '' '' '' 2 (Finite 1) None (Some []) ''2024-02-01'' empty_table))
   \<and> sql_select_one 1 (snd (add_order ''   '' '' '' 2 (Finite 1) None (Some []) ''2024-02-01'' empty_table))
       = Some (1, \<lparr>customer_name = [], product = [], quantity = 2, unit_price = Finite 1,
                    order_date = ''2024-02-01'', order_row.status = []\<rparr>)
   \<and> 3 \<in> fst ` set (table_rows sdb_example)
   \<and> \<not> isl (fst (update_reading 3 ''   '' (Finite 1) '' '' '' '' [] sdb_example))
   \<and> sql_select_one 3 (snd (update_reading 3 ''   '' (Finite 1) '' '' '' '' [] sdb_example))
       = Some (3, \<lparr>sensor_name = [], value = Finite 1, unit = [], timestamp = [],
                    sensor_row.status = []\<rparr>)
   \<and> 2 \<in> fst ` set (table_rows odb_example)
   \<and> \<not> isl (fst (update_order 2 ''   '' '' '' 2 (Finite 1) '' '' [] odb_example))
   \<and> sql_select_one 2 (snd (update_order 2 ''   '' '' '' 2 (Finite 1) '' '' [] odb_example))
       = Some (2, \<lparr>customer_name = [], product = [], quantity = 2, unit_price = Finite 1,
                    order_date = [], order_row.status = []\<rparr>)"
proof -
  note a = text_not_validated [where n = "''   ''" and v = "Finite 1" and u = "'' ''" and ts = None
      and st = "Some []" and now = "''2024-02-01 10:00:00''" and sdb = empty_table
      and c = "''   ''" and p = "'' ''" and q = 2 and up = "Finite 1" and od = None
      and so = "Some []" and today = "''2024-02-01''" and odb = empty_table
      and i = 3 and ts' = "'' ''" and st' = "[]" and j = 2 and od' = "'' ''" and so' = "[]"]
  note b = text_not_validated [where n = "''   ''" and v = "Finite 1" and u = "'' ''" and ts = None
      and st = "Some []" and now = "''2024-02-01 10:00:00''" and sdb = sdb_example
      and c = "''   ''" and p = "'' ''" and q = 2 and up = "Finite 1" and od = None
      and so = "Some []" and today = "''2024-02-01''" and odb = odb_example
      and i = 3 and ts' = "'' ''" and st' = "[]" and j = 2 and od' = "'' ''" and so' = "[]"]
  have r: "max_rowid (empty_table :: sensor_db) = 0" "max_rowid (empty_table :: order_db) = 0"
    by (rule max_rowid_empty)+
  have add: "\<not> isl (fst (add_reading ''   '' (Finite 1) '' '' None (Some []) ''2024-02-01 10:00:00'' empty_table))
   \<and> sql_select_one 1 (snd (add_reading ''   '' (Finite 1) '' '' None (Some []) ''2024-02-01 10:00:00'' empty_table))
       = Some (1, \<lparr>sensor_name = [], value = Finite 1, unit = [],
                    timestamp = ''2024-02-01 10:00:00'', sensor_row.status = []\<rparr>)
   \<and> \<not> isl (fst (add_order ''   '' '' '' 2 (Finite 1) None (Some []) ''2024-02-01'' empty_table))
   \<and> sql_select_one 1 (snd (add_order ''   '' '' '' 2 (Finite 1) None (Some []) ''2024-02-01'' empty_table))
       = Some (1, \<lparr>customer_name = [], product = [], quantity = 2, unit_price = Finite 1,
                    order_date = ''2024-02-01'', order_row.status = []\<rparr>)"
    using a by (simp add: r strip_blank MAX_ROWID_def sqlite_int_def)
  have upd: "3 \<in> fst ` set (table_rows sdb_example)
   \<and> \<not> isl (fst (update_reading 3 ''   '' (Finite 1) '' '' '' '' [] sdb_example))
   \<and> sql_select_one 3 (snd (update_reading 3 ''   '' (Finite 1) '' '' '' '' [] sdb_example))
       = Some (3, \<lparr>sensor_name = [], value = Finite 1, unit = [], timestamp = [],
                    sensor_row.status = []\<rparr>)
   \<and> 2 \<in> fst ` set (table_rows odb_example)
   \<and> \<not> isl (fst (update_order 2 ''   '' '' '' 2 (Finite 1) '' '' [] odb_example))
   \<and> sql_select_one 2 (snd (update_order 2 ''   '' '' '' 2 (Finite 1) '' '' [] odb_example))
       = Some (2, \<lparr>customer_name = [], product = [], quantity = 2, unit_price = Finite 1,
                    order_date = [], order_row.status = []\<rparr>)"
    using b by (simp add: example_ids small_sqlite_int strip_blank)
  from add upd show ?thesis by blast
qed

text \<open>
  The claim as stated asks for a constraint violation when a text is empty after
  trimming. Adding a reading whose sensor name is three blanks succeeds and stores the
  empty name.
\<close>

theorem blank_text_accepted_counterexample:
  "strip ''   '' = []
   \<and> add_reading ''   '' (Finite 1) ''C'' None (Some ''Normal'') ''2024-02-01 10:00:00'' empty_table
     = (Inr 1, \<lparr>table_rows = [(1, \<lparr>sensor_name = [], value = Finite 1, unit = ''C'',
                                     timestamp = ''2024-02-01 10:00:00'',
                                     sensor_row.status = ''Normal''\<rparr>)],
                sqlite_sequence = 1\<rparr>)"
  by (simp add: add_reading_eq max_rowid_empty MAX_ROWID_def strip_def py_isspace_def
      empty_table_rows)

section \<open>Update rewrites the whole record\<close>

text \<open>
  Claim C4, as the code has it. With an id in the 64-bit range and values that pass the
  table's constraints, \<^verbatim>\<open>update_reading\<close> and \<^verbatim>\<open>update_order\<close> return whether a row
  has that id; when one has, the record found under the id afterwards is made of the
  arguments alone, the text arguments trimmed and the numbers as given, nothing of the
  old record. With an id that no row has, the call returns \<open>False\<close>, raises nothing and
  leaves the table as it was, whatever the values.
\<close>

theorem update_rewrites_trimmed:
  "(sqlite_int i \<and> v \<noteq> NaN \<longrightarrow>
      fst (update_reading i n v u ts st sdb) = Inr (i \<in> fst ` set (table_rows sdb)))
   \<and> (sqlite_int i \<and> v \<noteq> NaN \<and> i \<in> fst ` set (table_rows sdb) \<longrightarrow>
      get_reading i (snd (update_reading i n v u ts st sdb))
        = Inr (Some (i, \<lparr>sensor_name = strip n, value = v, unit = strip u,
                          timestamp = strip ts, sensor_row.status = strip st\<rparr>)))
   \<and> (sqlite_int i \<and> i \<notin> fst ` set (table_rows sdb) \<longrightarrow>
      update_reading i n v u ts st sdb = (Inr False, sdb))
   \<and> (sqlite_int j \<and> sqlite_int q \<and> 0 < q \<and> float_ge0 up \<longrightarrow>
      fst (update_order j c p q up od so odb) = Inr (j \<in> fst ` set (table_rows odb)))
   \<and> (sqlite_int j \<and> sqlite_int q \<and> 0 < q \<and> float_ge0 up \<and> j \<in> fst ` set (table_rows odb) \<longrightarrow>
      get_order j (snd (update_order j c p q up od so odb))
        = Inr (Some (j, \<lparr>customer_name = strip c, product = strip p, quantity = q,
                          unit_price = up, order_date = strip od,
                          order_row.status = strip so\<rparr>)))
   \<and> (sqlite_int j \<and> sqlite_int q \<and> j \<notin> fst ` set (table_rows odb) \<longrightarrow>
      update_order j c p q up od so odb = (Inr False, odb))"
proof -
  have nan: "float_ge0 up \<Longrightarrow> up \<noteq> NaN" by auto
  have mi: "i \<in> fst ` set (table_rows sdb) \<longleftrightarrow> matching i sdb \<noteq> []"
    and mj: "j \<in> fst ` set (table_rows odb) \<longleftrightarrow> matching j odb \<noteq> []"
    by (simp_all add: matching_empty)
  show ?thesis
    unfolding mi mj using nan
    by (simp add: update_reading_eq update_order_eq get_reading_def get_order_def
        select_after_update update_absent_noop)
qed

theorem update_rewrites_trimmed_witness:
  "sqlite_int 3 \<and> Finite 5 \<noteq> NaN \<and> 3 \<in> fst ` set (table_rows sdb_example)
   \<and> sqlite_int 9 \<and> 9 \<notin> fst ` set (table_rows sdb_example)
   \<and> fst (update_reading 3 ''  Valve-8  '' (Finite 5) ''kPa'' ''2024-03-01 00:00:00'' ''Error'' sdb_example)
       = Inr True
   \<and> get_reading 3 (snd (update_reading 3 ''  Valve-8  '' (Finite 5) ''kPa'' ''2024-03-01 00:00:00'' ''Error'' sdb_example))
       = Inr (Some (3, \<lparr>sensor_name = ''Valve-8'', value = Finite 5, unit = ''kPa'',
                         timestamp = ''2024-03-01 00:00:00'', sensor_row.status = ''Error''\<rparr>))
   \<and> update_reading 9 ''  Valve-8  '' (Finite 5) ''kPa'' ''2024-03-01 00:00:00'' ''Error'' sdb_example
       = (Inr False, sdb_example)
   \<and> sqlite_int 2 \<and> 0 < (2::int) \<and> float_ge0 (Finite 0) \<and> 2 \<in> fst ` set (table_rows odb_example)
   \<and> fst (update_order 2 '' Bob '' ''Nut'' 2 (Finite 0) ''2024-03-01'' ''shipped'' odb_example)
       = Inr True
   \<and> get_order 2 (snd (update_order 2 '' Bob '' ''Nut'' 2 (Finite 0) ''2024-03-01'' ''shipped'' odb_example))
       = Inr (Some (2, \<lparr>customer_name = ''Bob'', product = ''Nut'', quantity = 2,
                         unit_price = Finite 0, order_date = ''2024-03-01'',
                         order_row.status = ''shipped''\<rparr>))
   \<and> update_order 9 '' Bob '' ''Nut'' 2 (Finite 0) ''2024-03-01'' ''shipped'' odb_example
       = (Inr False, odb_example)"
proof -
  note t = update_rewrites_trimmed [where n = "''  Valve-8  ''" and v = "Finite 5"
      and u = "''kPa''" and ts = "''2024-03-01 00:00:00''" and st = "''Error''"
      and sdb = sdb_example and c = "'' Bob ''" and p = "''Nut''" and q = 2 and up = "Finite 0"
      and od = "''2024-03-01''" and so = "''shipped''" and odb = odb_example]
  show ?thesis
    using t [where i = 3 and j = 2] t [where i = 9 and j = 9]
    by (simp add: example_ids small_sqlite_int strip_examples)
qed

text \<open>
  The claim as stated has the record rewritten to exactly the supplied values and an
  indicator returned that tells whether the row existed. A sensor name supplied with
  blanks around it is stored without them; an update of an existing order with quantity
  0 raises; an update with an id of \<open>2 ^ 63\<close>, which no row can have, raises as well.
\<close>

theorem update_trims_text_counterexample:
  "get_reading 3 (snd (update_reading 3 ''  Valve-8  '' (Finite 5) ''kPa'' ''2024-03-01 00:00:00'' ''Error'' sdb_example))
     = Inr (Some (3, \<lparr>sensor_name = ''Valve-8'', value = Finite 5, unit = ''kPa'',
                       timestamp = ''2024-03-01 00:00:00'', sensor_row.status = ''Error''\<rparr>))
   \<and> ''Valve-8'' \<noteq> ''  Valve-8  ''
   \<and> update_order 2 ''Bob'' ''Nut'' 0 (Finite 0) ''2024-03-01'' ''shipped'' odb_example
     = (Inl IntegrityError, odb_example)
   \<and> update_reading (2 ^ 63) ''Valve-8'' (Finite 5) ''kPa'' ''2024-03-01 00:00:00'' ''Error'' sdb_example
     = (Inl OverflowError, sdb_example)"
  by (simp add: update_reading_eq update_order_eq get_reading_def sql_select_one_def matching_def
      sdb_example_def odb_example_def small_sqlite_int strip_examples sqlite_int_def MAX_ROWID_def)

section \<open>Export of an empty table\<close>

text \<open>
  Claim C5. On a table without rows, \<^verbatim>\<open>export_to_csv\<close> of either store raises
  \<^verbatim>\<open>ValueError\<close> and the files are what they were: the destination is neither created
  nor overwritten.
\<close>

theorem export_empty_rejected:
  assumes "table_rows sdb = []" and "table_rows odb = []"
  shows "sensor_export_to_csv str_float csv_path sdb fs = (Inl ValueError, fs)
       \<and> order_export_to_csv str_float csv_path odb fs = (Inl ValueError, fs)"
  using assms
  by (simp add: sensor_export_to_csv_def order_export_to_csv_def get_all_readings_def
      get_all_orders_def sql_select_all_def)

theorem export_empty_rejected_witness:
  "table_rows (empty_table :: sensor_db) = [] \<and> table_rows (empty_table :: order_db) = []
   \<and> sensor_export_to_csv (\<lambda>x. ''1.0'') ''sensor_log.csv'' empty_table
        \<lparr>contents = Map.empty, writable = (\<lambda>p. True)\<rparr>
      = (Inl ValueError, \<lparr>contents = Map.empty, writable = (\<lambda>p. True)\<rparr>)
   \<and> order_export_to_csv (\<lambda>x. ''1.0'') ''orders_export.csv'' empty_table
        \<lparr>contents = Map.empty, writable = (\<lambda>p. True)\<rparr>
      = (Inl ValueError, \<lparr>contents = Map.empty, writable = (\<lambda>p. True)\<rparr>)"
  using export_empty_rejected [OF empty_table_rows empty_table_rows]
  by (simp add: empty_table_rows)

section \<open>Export and read back\<close>

text \<open>
  Claim C6. On a table with at least one row and a destination that can be opened,
  \<^verbatim>\<open>export_to_csv\<close> of either store succeeds and the destination then holds the header
  row, which is the column names of the table declaration in order, \<open>id\<close> first, followed
  by one row per record as \<^verbatim>\<open>get_all\<close> lists them, which is by ascending id (strictly,
  the ids of a table being distinct), every record of the table once. Parsing that text
  by the grammar of the dialect gives the header and, row by row, the printed cells of
  those records, whatever their length; turning the cells back into numbers gives the very
  records of \<^verbatim>\<open>get_all\<close>, provided \<open>float_of_str\<close> reads back what \<open>str_float\<close> printed
  for the floats in the table. The parsing is by the format alone: a bound that a reader
  puts on the length of a field, as Python's \<^verbatim>\<open>csv.reader\<close> does, is not modelled.
\<close>

theorem export_round_trip:
  assumes "table_rows sdb \<noteq> []" and "writable fs spath"
      and "list_all (\<lambda>kr. float_of_str (str_float (value (snd kr))) = value (snd kr)) (table_rows sdb)"
      and "table_rows odb \<noteq> []" and "writable fs opath"
      and "list_all (\<lambda>kr. float_of_str (str_float (unit_price (snd kr))) = unit_price (snd kr)) (table_rows odb)"
  shows "(fst (sensor_export_to_csv str_float spath sdb fs) = Inr ()
          \<and> contents (snd (sensor_export_to_csv str_float spath sdb fs)) spath
              = Some (writerow sensor_columns
                      @ concat (map (\<lambda>r. writerow (sensor_cells str_float r)) (get_all_readings sdb)))
          \<and> map_option csv_parse (contents (snd (sensor_export_to_csv str_float spath sdb fs)) spath)
              = Some (sensor_columns # map (sensor_cells str_float) (get_all_readings sdb))
          \<and> map_option (\<lambda>text. map (parse_sensor_row float_of_str) (tl (csv_parse text)))
               (contents (snd (sensor_export_to_csv str_float spath sdb fs)) spath)
              = Some (map Some (get_all_readings sdb))
          \<and> sorted (map fst (get_all_readings sdb))
          \<and> (distinct (map fst (table_rows sdb)) \<longrightarrow> sorted_wrt (<) (map fst (get_all_readings sdb)))
          \<and> length (get_all_readings sdb) = length (table_rows sdb)
          \<and> set (get_all_readings sdb) = set (table_rows sdb))
       \<and> (fst (order_export_to_csv str_float opath odb fs) = Inr ()
          \<and> contents (snd (order_export_to_csv str_float opath odb fs)) opath
              = Some (writerow order_columns
                      @ concat (map (\<lambda>r. writerow (order_cells str_float r)) (get_all_orders odb)))
          \<and> map_option csv_parse (contents (snd (order_export_to_csv str_float opath odb fs)) opath)
              = Some (order_columns # map (order_cells str_float) (get_all_orders odb))
          \<and> map_option (\<lambda>text. map (parse_order_row float_of_str) (tl (csv_parse text)))
               (contents (snd (order_export_to_csv str_float opath odb fs)) opath)
              = Some (map Some (get_all_orders odb))
          \<and> sorted (map fst (get_all_orders odb))
          \<and> (distinct (map fst (table_rows odb)) \<longrightarrow> sorted_wrt (<) (map fst (get_all_orders odb)))
          \<and> length (get_all_orders odb) = length (table_rows odb)
          \<and> set (get_all_orders odb) = set (table_rows odb))"
proof -
  have "map (\<lambda>kr. parse_sensor_row float_of_str (sensor_cells str_float kr)) (get_all_readings sdb)
      = map Some (get_all_readings sdb)"
    by (rule map_cong [OF refl])
       (use assms(3) in \<open>simp add: get_all_readings_def select_all_sorted(3) parse_sensor_cells list_all_iff\<close>)
  then have ps: "map (parse_sensor_row float_of_str)
      (map (sensor_cells str_float) (get_all_readings sdb)) = map Some (get_all_readings sdb)"
    by (simp add: comp_def)
  have "map (\<lambda>kr. parse_order_row float_of_str (order_cells str_float kr)) (get_all_orders odb)
      = map Some (get_all_orders odb)"
    by (rule map_cong [OF refl])
       (use assms(6) in \<open>simp add: get_all_orders_def select_all_sorted(3) parse_order_cells list_all_iff\<close>)
  then have po: "map (parse_order_row float_of_str)
      (map (order_cells str_float) (get_all_orders odb)) = map Some (get_all_orders odb)"
    by (simp add: comp_def)
  have rs: "csv_parse (concat (map writerow (sensor_columns # map (sensor_cells str_float) (get_all_readings sdb))))
      = sensor_columns # map (sensor_cells str_float) (get_all_readings sdb)"
    and ro: "csv_parse (concat (map writerow (order_columns # map (order_cells str_float) (get_all_orders odb))))
      = order_columns # map (order_cells str_float) (get_all_orders odb)"
    by (rule csv_round_trip)+
  have ts: "concat (map writerow (sensor_columns # map (sensor_cells str_float) (get_all_readings sdb)))
      = writerow sensor_columns @ concat (map (\<lambda>r. writerow (sensor_cells str_float r)) (get_all_readings sdb))"
    and to: "concat (map writerow (order_columns # map (order_cells str_float) (get_all_orders odb)))
      = writerow order_columns @ concat (map (\<lambda>r. writerow (order_cells str_float r)) (get_all_orders odb))"
    by (simp_all add: comp_def)
  have gs: "sorted (map fst (get_all_readings sdb))" "length (get_all_readings sdb) = length (table_rows sdb)"
    "set (get_all_readings sdb) = set (table_rows sdb)"
    and go: "sorted (map fst (get_all_orders odb))" "length (get_all_orders odb) = length (table_rows odb)"
    "set (get_all_orders odb) = set (table_rows odb)"
    by (simp_all only: get_all_readings_def get_all_orders_def select_all_sorted)
  have ss: "distinct (map fst (table_rows sdb)) \<longrightarrow> sorted_wrt (<) (map fst (get_all_readings sdb))"
    and so: "distinct (map fst (table_rows odb)) \<longrightarrow> sorted_wrt (<) (map fst (get_all_orders odb))"
    unfolding get_all_readings_def get_all_orders_def by (blast intro: select_all_strict)+
  show ?thesis
    unfolding sensor_export_eq [OF assms(1,2)] order_export_eq [OF assms(4,5)] fst_conv snd_conv
    using ps po rs ro gs go ss so
    by (simp add: write_file_def ts [symmetric] to [symmetric] del: concat.simps map_map list.map)
qed

theorem export_round_trip_witness:
  "table_rows sdb_example \<noteq> [] \<and> writable fs_example ''sensor_log.csv''
   \<and> list_all (\<lambda>kr. float_of_str_example (str_float_example (value (snd kr))) = value (snd kr))
        (table_rows sdb_example)
   \<and> table_rows odb_example \<noteq> [] \<and> writable fs_example ''orders_export.csv''
   \<and> list_all (\<lambda>kr. float_of_str_example (str_float_example (unit_price (snd kr))) = unit_price (snd kr))
        (table_rows odb_example)
   \<and> map_option csv_parse
        (contents (snd (sensor_export_to_csv str_float_example ''sensor_log.csv'' sdb_example fs_example))
           ''sensor_log.csv'')
      = Some [[''id'', ''sensor_name'', ''value'', ''unit'', ''timestamp'', ''status''],
              [''1'', ''Pump-A'', ''21.5'', ''C'', ''2024-01-01 00:00:00'', ''Normal''],
              [''3'', ''Valve-7'', ''2.0'', ''kPa'', ''2024-01-02 08:30:00'', ''Warning'']]
   \<and> map_option csv_parse
        (contents (snd (order_export_to_csv str_float_example ''orders_export.csv'' odb_example fs_example))
           ''orders_export.csv'')
      = Some [[''id'', ''customer_name'', ''product'', ''quantity'', ''unit_price'', ''order_date'', ''status''],
              [''1'', ''Ada'', ''Bolt, M4'', ''3'', ''10.5'', ''2024-01-01'', ''pending''],
              [''2'', ''Bob'', ''Nut'', ''1'', ''0.0'', ''2024-01-03'', ''shipped'']]
   \<and> map_option (\<lambda>text. map (parse_order_row float_of_str_example) (tl (csv_parse text)))
        (contents (snd (order_export_to_csv str_float_example ''orders_export.csv'' odb_example fs_example))
           ''orders_export.csv'')
      = Some (map Some (get_all_orders odb_example))"
proof -
  have h1: "table_rows sdb_example \<noteq> []" and h4: "table_rows odb_example \<noteq> []"
    by (simp_all add: sdb_example_def odb_example_def)
  have h2: "writable fs_example ''sensor_log.csv''" and h5: "writable fs_example ''orders_export.csv''"
    by (simp_all add: fs_example_def)
  have h3: "list_all (\<lambda>kr. float_of_str_example (str_float_example (value (snd kr))) = value (snd kr))
        (table_rows sdb_example)"
    by (simp add: sdb_example_def str_float_example_def float_of_str_example_def)
  have h6: "list_all (\<lambda>kr. float_of_str_example (str_float_example (unit_price (snd kr))) = unit_price (snd kr))
        (table_rows odb_example)"
    by (simp add: odb_example_def str_float_example_def float_of_str_example_def)
  have es: "sensor_columns # map (sensor_cells str_float_example) (get_all_readings sdb_example)
      = [[''id'', ''sensor_name'', ''value'', ''unit'', ''timestamp'', ''status''],
         [''1'', ''Pump-A'', ''21.5'', ''C'', ''2024-01-01 00:00:00'', ''Normal''],
         [''3'', ''Valve-7'', ''2.0'', ''kPa'', ''2024-01-02 08:30:00'', ''Warning'']]"
    by (simp add: sensor_columns_def sensor_cells_def get_all_readings_def sql_select_all_def
        sdb_example_def str_float_example_def str_int_def digits_of.simps digit_char_def)
  have eo: "order_columns # map (order_cells str_float_example) (get_all_orders odb_example)
      = [[''id'', ''customer_name'', ''product'', ''quantity'', ''unit_price'', ''order_date'', ''status''],
         [''1'', ''Ada'', ''Bolt, M4'', ''3'', ''10.5'', ''2024-01-01'', ''pending''],
         [''2'', ''Bob'', ''Nut'', ''1'', ''0.0'', ''2024-01-03'', ''shipped'']]"
    by (simp add: order_columns_def order_cells_def get_all_orders_def sql_select_all_def
        odb_example_def str_float_example_def str_int_def digits_of.simps digit_char_def)
  from export_round_trip [OF h1 h2 h3 h4 h5 h6] h1 h2 h3 h4 h5 h6
  show ?thesis unfolding es eo by blast
qed

section \<open>Trimming on add\<close>

text \<open>
  Claim C7 on the code. \<^verbatim>\<open>add_reading\<close> trims the sensor name (\<open>"  Pump-A  "\<close> is stored
  as \<open>"Pump-A"\<close>), but a timestamp passed to it, and an order date passed to
  \<^verbatim>\<open>add_order\<close>, are stored with their surrounding blanks, which \<^verbatim>\<open>strip\<close> would
  have removed and which the update methods do remove.
\<close>

theorem add_keeps_date_whitespace:
  "get_reading 1 (snd (add_reading ''  Pump-A  '' (Finite 21.5) ''C'' (Some ''  2024-01-01 00:00:00  '') (Some ''Normal'') ''2024-02-01 10:00:00'' empty_table))
     = Inr (Some (1, \<lparr>sensor_name = ''Pump-A'', value = Finite 21.5, unit = ''C'',
                       timestamp = ''  2024-01-01 00:00:00  '', sensor_row.status = ''Normal''\<rparr>))
   \<and> get_order 1 (snd (add_order ''Ada'' ''Nut'' 3 (Finite 10.5) (Some '' 2024-01-01 '') None ''2024-02-01'' empty_table))
     = Inr (Some (1, \<lparr>customer_name = ''Ada'', product = ''Nut'', quantity = 3,
                       unit_price = Finite 10.5, order_date = '' 2024-01-01 '',
                       order_row.status = ''pending''\<rparr>))
   \<and> strip ''  2024-01-01 00:00:00  '' = ''2024-01-01 00:00:00''
   \<and> strip '' 2024-01-01 '' = ''2024-01-01''"
  by (simp add: add_reading_eq add_order_eq get_reading_def get_order_def sql_select_one_def
      matching_def max_rowid_empty empty_table_rows MAX_ROWID_def sqlite_int_def strip_def
      py_isspace_def)

section \<open>Deleting a record\<close>

text \<open>
  Claim C8. \<^verbatim>\<open>delete_reading\<close> and \<^verbatim>\<open>delete_order\<close> on the id of a record that is in
  the table return \<open>True\<close> and leave the table without that record: the other rows are
  kept, the id is no longer found by the lookup nor listed. Deleting the same id again
  raises nothing, returns \<open>False\<close> and leaves the table as it was.
\<close>

theorem delete_twice:
  assumes "table_inv sdb" and "i \<in> fst ` set (table_rows sdb)"
      and "table_inv odb" and "j \<in> fst ` set (table_rows odb)"
  shows "(fst (delete_reading i sdb) = Inr True
          \<and> table_rows (snd (delete_reading i sdb)) = filter (\<lambda>kr. fst kr \<noteq> i) (table_rows sdb)
          \<and> get_reading i (snd (delete_reading i sdb)) = Inr None
          \<and> i \<notin> fst ` set (get_all_readings (snd (delete_reading i sdb)))
          \<and> delete_reading i (snd (delete_reading i sdb)) = (Inr False, snd (delete_reading i sdb)))
       \<and> (fst (delete_order j odb) = Inr True
          \<and> table_rows (snd (delete_order j odb)) = filter (\<lambda>kr. fst kr \<noteq> j) (table_rows odb)
          \<and> get_order j (snd (delete_order j odb)) = Inr None
          \<and> j \<notin> fst ` set (get_all_orders (snd (delete_order j odb)))
          \<and> delete_order j (snd (delete_order j odb)) = (Inr False, snd (delete_order j odb)))"
proof -
  have ri: "sqlite_int i" using assms(1,2) by (rule table_inv_range)
  have rj: "sqlite_int j" using assms(3,4) by (rule table_inv_range)
  have mi: "matching i sdb \<noteq> []" using assms(2) by (simp add: matching_empty)
  have mj: "matching j odb \<noteq> []" using assms(4) by (simp add: matching_empty)
  define sdb' where "sdb' = sdb\<lparr>table_rows := filter (\<lambda>kr. fst kr \<noteq> i) (table_rows sdb)\<rparr>"
  define odb' where "odb' = odb\<lparr>table_rows := filter (\<lambda>kr. fst kr \<noteq> j) (table_rows odb)\<rparr>"
  have s: "delete_reading i sdb = (Inr True, sdb')"
    using ri mi by (simp add: delete_reading_eq sdb'_def)
  have o: "delete_order j odb = (Inr True, odb')"
    using rj mj by (simp add: delete_order_eq odb'_def)
  have ms: "matching i sdb' = []" unfolding sdb'_def by (rule matching_after_delete)
  have mo: "matching j odb' = []" unfolding odb'_def by (rule matching_after_delete)
  have s2: "delete_reading i sdb' = (Inr False, sdb')"
    using ri ms delete_absent_noop [OF ms] by (simp add: delete_reading_eq)
  have o2: "delete_order j odb' = (Inr False, odb')"
    using rj mo delete_absent_noop [OF mo] by (simp add: delete_order_eq)
  have s3: "get_reading i sdb' = Inr None"
    using ri ms by (simp add: get_reading_def sql_select_one_def)
  have o3: "get_order j odb' = Inr None"
    using rj mo by (simp add: get_order_def sql_select_one_def)
  have s4: "i \<notin> fst ` set (get_all_readings sdb')"
    using ms by (simp add: get_all_readings_def sql_select_all_def matching_empty)
  have o4: "j \<notin> fst ` set (get_all_orders odb')"
    using mo by (simp add: get_all_orders_def sql_select_all_def matching_empty)
  have s5: "table_rows sdb' = filter (\<lambda>kr. fst kr \<noteq> i) (table_rows sdb)" by (simp add: sdb'_def)
  have o5: "table_rows odb' = filter (\<lambda>kr. fst kr \<noteq> j) (table_rows odb)" by (simp add: odb'_def)
  show ?thesis
    unfolding s o fst_conv snd_conv using s2 o2 s3 o3 s4 o4 s5 o5 by blast
qed

theorem delete_twice_witness:
  "table_inv sdb_example \<and> 3 \<in> fst ` set (table_rows sdb_example)
   \<and> table_inv odb_example \<and> 1 \<in> fst ` set (table_rows odb_example)
   \<and> fst (delete_reading 3 sdb_example) = Inr True
   \<and> get_reading 3 (snd (delete_reading 3 sdb_example)) = Inr None
   \<and> delete_reading 3 (snd (delete_reading 3 sdb_example)) = (Inr False, snd (delete_reading 3 sdb_example))
   \<and> fst (delete_order 1 odb_example) = Inr True
   \<and> get_order 1 (snd (delete_order 1 odb_example)) = Inr None
   \<and> delete_order 1 (snd (delete_order 1 odb_example)) = (Inr False, snd (delete_order 1 odb_example))"
proof -
  have h1: "3 \<in> fst ` set (table_rows sdb_example)" by (simp add: sdb_example_def)
  have h2: "1 \<in> fst ` set (table_rows odb_example)" by (simp add: odb_example_def)
  show ?thesis
    using delete_twice [OF sdb_example_inv h1 odb_example_inv h2] sdb_example_inv odb_example_inv h1 h2
    by blast
qed

section \<open>Defaults of \<^verbatim>\<open>status\<close>\<close>

text \<open>
  Claim C9, as the code has it. Both stores fill in a status that is left out: an add
  without status is the add with \<open>"Normal"\<close> for a sensor reading and with \<open>"pending"\<close>
  for an order. A sensor add without status succeeds when the value is not NaN and a rowid
  is left, and the reading found under the new id has the status \<open>"Normal"\<close>.
\<close>

theorem status_defaults:
  "add_reading n v u ts None now sdb = add_reading n v u ts (Some ''Normal'') now sdb
   \<and> add_order c p q up od None today odb = add_order c p q up od (Some ''pending'') today odb
   \<and> (v \<noteq> NaN \<and> max_rowid sdb < MAX_ROWID \<longrightarrow>
        fst (add_reading n v u ts None now sdb) = Inr (max_rowid sdb + 1)
        \<and> sql_select_one (max_rowid sdb + 1) (snd (add_reading n v u ts None now sdb))
            = Some (max_rowid sdb + 1,
                    \<lparr>sensor_name = strip n, value = v, unit = strip u,
                     timestamp = (case ts of None \<Rightarrow> now | Some x \<Rightarrow> x),
                     sensor_row.status = ''Normal''\<rparr>))"
proof -
  have "strip ''Normal'' = ''Normal''" by (simp add: strip_def py_isspace_def)
  then show ?thesis
    by (simp add: add_reading_eq add_order_eq select_appended)
qed

theorem status_defaults_witness:
  "Finite 20 \<noteq> NaN \<and> max_rowid (empty_table :: sensor_db) < MAX_ROWID
   \<and> add_order ''Ada'' ''Nut'' 2 (Finite 1) None None ''2024-02-01'' empty_table
       = add_order ''Ada'' ''Nut'' 2 (Finite 1) None (Some ''pending'') ''2024-02-01'' empty_table
   \<and> fst (add_reading ''T1'' (Finite 20) ''C'' None None ''2024-02-01 10:00:00'' empty_table) = Inr 1
   \<and> sql_select_one 1 (snd (add_reading ''T1'' (Finite 20) ''C'' None None ''2024-02-01 10:00:00'' empty_table))
       = Some (1, \<lparr>sensor_name = ''T1'', value = Finite 20, unit = ''C'',
                    timestamp = ''2024-02-01 10:00:00'', sensor_row.status = ''Normal''\<rparr>)"
proof -
  have s: "strip ''T1'' = ''T1''" "strip ''C'' = ''C''" by (simp_all add: strip_def py_isspace_def)
  show ?thesis
    using status_defaults [where n = "''T1''" and v = "Finite 20" and u = "''C''" and ts = None
        and now = "''2024-02-01 10:00:00''" and sdb = empty_table and c = "''Ada''"
        and p = "''Nut''" and q = 2 and up = "Finite 1" and od = None
        and today = "''2024-02-01''" and odb = empty_table]
    by (auto simp add: max_rowid_empty MAX_ROWID_def s)
qed

text \<open>
  The claim as stated has a sensor add without status not succeed with a default. It
  succeeds, with the status \<open>"Normal"\<close>.
\<close>

theorem sensor_status_default_counterexample:
  "add_reading ''T1'' (Finite 20) ''C'' None None ''2024-02-01 10:00:00'' empty_table
     = (Inr 1, \<lparr>table_rows = [(1, \<lparr>sensor_name = ''T1'', value = Finite 20, unit = ''C'',
                                     timestamp = ''2024-02-01 10:00:00'',
                                     sensor_row.status = ''Normal''\<rparr>)],
                sqlite_sequence = 1\<rparr>)"
  by (simp add: add_reading_eq max_rowid_empty MAX_ROWID_def strip_def py_isspace_def
      empty_table_rows)

section \<open>A supplied date is stored as it is\<close>

text \<open>
  Claim C10. On a well-formed table, when \<^verbatim>\<open>add_reading\<close> is given a timestamp, or
  \<^verbatim>\<open>add_order\<close> an order date, and returns an id, the record that the lookup returns for
  that id holds the given text unchanged: not trimmed, not checked against any date
  format. The add does return an id for every such text when the numbers are acceptable
  and a rowid is left.
\<close>

theorem supplied_date_verbatim:
  assumes "table_inv sdb" and "table_inv odb"
  shows "(add_reading n v u (Some ts) st now sdb = (Inr k, sdb') \<longrightarrow>
            get_reading k sdb'
              = Inr (Some (k, \<lparr>sensor_name = strip n, value = v, unit = strip u, timestamp = ts,
                               sensor_row.status =
                                 strip (case st of None \<Rightarrow> ''Normal'' | Some x \<Rightarrow> x)\<rparr>)))
       \<and> (v \<noteq> NaN \<and> sqlite_sequence sdb < MAX_ROWID \<longrightarrow>
            fst (add_reading n v u (Some ts) st now sdb) = Inr (sqlite_sequence sdb + 1))
       \<and> (add_order c p q up (Some od) so today odb = (Inr j, odb') \<longrightarrow>
            get_order j odb'
              = Inr (Some (j, \<lparr>customer_name = strip c, product = strip p, quantity = q,
                               unit_price = up, order_date = od,
                               order_row.status =
                                 strip (case so of None \<Rightarrow> ''pending'' | Some x \<Rightarrow> x)\<rparr>)))
       \<and> (sqlite_int q \<and> 0 < q \<and> float_ge0 up \<and> sqlite_sequence odb < MAX_ROWID \<longrightarrow>
            fst (add_order c p q up (Some od) so today odb) = Inr (sqlite_sequence odb + 1))"
proof (intro conjI impI)
  assume a: "add_reading n v u (Some ts) st now sdb = (Inr k, sdb')"
  let ?r = "\<lparr>sensor_name = strip n, value = v, unit = strip u, timestamp = ts,
             sensor_row.status = strip (case st of None \<Rightarrow> ''Normal'' | Some x \<Rightarrow> x)\<rparr>"
  from a have i: "sql_insert sensor_constraints ?r sdb = (Inr k, sdb')"
    by (simp add: add_reading_def)
  show "get_reading k sdb' = Inr (Some (k, ?r))"
    using insert_id_int [OF assms(1) i] select_after_insert [OF i]
    by (simp add: get_reading_def)
next
  assume "v \<noteq> NaN \<and> sqlite_sequence sdb < MAX_ROWID"
  then show "fst (add_reading n v u (Some ts) st now sdb) = Inr (sqlite_sequence sdb + 1)"
    using max_rowid_inv [OF assms(1)] by (simp add: add_reading_eq)
next
  assume a: "add_order c p q up (Some od) so today odb = (Inr j, odb')"
  let ?r = "\<lparr>customer_name = strip c, product = strip p, quantity = q, unit_price = up,
             order_date = od,
             order_row.status = strip (case so of None \<Rightarrow> ''pending'' | Some x \<Rightarrow> x)\<rparr>"
  from a have i: "sql_insert order_constraints ?r odb = (Inr j, odb')"
    by (simp add: add_order_def split: if_splits)
  show "get_order j odb' = Inr (Some (j, ?r))"
    using insert_id_int [OF assms(2) i] select_after_insert [OF i]
    by (simp add: get_order_def)
next
  assume "sqlite_int q \<and> 0 < q \<and> float_ge0 up \<and> sqlite_sequence odb < MAX_ROWID"
  moreover have "float_ge0 up \<Longrightarrow> up \<noteq> NaN" by auto
  ultimately show "fst (add_order c p q up (Some od) so today odb) = Inr (sqlite_sequence odb + 1)"
    using max_rowid_inv [OF assms(2)] by (simp add: add_order_eq)
qed

theorem supplied_date_verbatim_witness:
  "table_inv sdb_example \<and> table_inv odb_example
   \<and> Finite 7 \<noteq> NaN \<and> sqlite_sequence sdb_example < MAX_ROWID
   \<and> sqlite_int 4 \<and> 0 < (4::int) \<and> float_ge0 (Finite 2.5) \<and> sqlite_sequence odb_example < MAX_ROWID
   \<and> get_reading 4 (snd (add_reading ''Fan'' (Finite 7) ''rpm'' (Some '' next tuesday? '') None ''2024-02-01 10:00:00'' sdb_example))
       = Inr (Some (4, \<lparr>sensor_name = ''Fan'', value = Finite 7, unit = ''rpm'',
                         timestamp = '' next tuesday? '', sensor_row.status = ''Normal''\<rparr>))
   \<and> get_order 3 (snd (add_order ''Cy'' ''Gear'' 4 (Finite 2.5) (Some ''31/12/2024 '') None ''2024-02-01'' odb_example))
       = Inr (Some (3, \<lparr>customer_name = ''Cy'', product = ''Gear'', quantity = 4,
                         unit_price = Finite 2.5, order_date = ''31/12/2024 '',
                         order_row.status = ''pending''\<rparr>))"
proof -
  have h: "Finite 7 \<noteq> NaN" "sqlite_sequence sdb_example < MAX_ROWID" "sqlite_int 4" "0 < (4::int)"
    "float_ge0 (Finite 2.5)" "sqlite_sequence odb_example < MAX_ROWID"
    by (simp_all add: sdb_example_def odb_example_def MAX_ROWID_def sqlite_int_def)
  have s: "strip ''Fan'' = ''Fan''" "strip ''rpm'' = ''rpm''" "strip ''Normal'' = ''Normal''"
    "strip ''Cy'' = ''Cy''" "strip ''Gear'' = ''Gear''" "strip ''pending'' = ''pending''"
    by (simp_all add: strip_def py_isspace_def)
  have q: "sqlite_sequence sdb_example = 3" "sqlite_sequence odb_example = 2"
    by (simp_all add: sdb_example_def odb_example_def)
  note t = supplied_date_verbatim [OF sdb_example_inv odb_example_inv,
      where n = "''Fan''" and v = "Finite 7" and u = "''rpm''" and ts = "'' next tuesday? ''"
      and st = None and now = "''2024-02-01 10:00:00''" and k = 4
      and sdb' = "snd (add_reading ''Fan'' (Finite 7) ''rpm'' (Some '' next tuesday? '') None ''2024-02-01 10:00:00'' sdb_example)"
      and c = "''Cy''" and p = "''Gear''" and q = 4 and up = "Finite 2.5"
      and od = "''31/12/2024 ''" and so = None and today = "''2024-02-01''" and j = 3
      and odb' = "snd (add_order ''Cy'' ''Gear'' 4 (Finite 2.5) (Some ''31/12/2024 '') None ''2024-02-01'' odb_example)"]
  show ?thesis
    using t h sdb_example_inv odb_example_inv
    by (auto simp add: s q prod_eq_iff)
qed

end
